theory Spec2Isabelle
  imports Complex_Main
begin

unbundle bit_operations_syntax

section \<open>Pixel buffers\<close>

text \<open>
  The image processor of \<^verbatim>\<open>image_processor.py\<close> works on NumPy arrays. An array is modelled
  by its shape, its element type and its elements in row-major order (the channels of one
  pixel are adjacent). \<open>channels = None\<close> is a two-dimensional array of shape
  \<open>(height, width)\<close>; \<open>channels = Some c\<close> is a three-dimensional array of shape
  \<open>(height, width, c)\<close>. Elements are integers; the element types covered are the 8-bit
  unsigned one and the 16-bit signed one, which every library call of the pipeline accepts
  up to the cast. Floating-point element types are not modelled.
\<close>

datatype dtype = UInt8 | Int16

record ndarray =
  height :: nat
  width :: nat
  channels :: "nat option"
  dtype :: dtype
  data :: "int list"

text \<open>
  The exceptions the processor can raise: Python's \<open>ZeroDivisionError\<close> and the imaging
  library's \<open>cv2.error\<close>, which names the library call that raised it. The source defines
  no exception class of its own.
\<close>

datatype cv_call = Resize | CvtColor | Bitwise

datatype py_error = ZeroDivisionError | CvError cv_call

definition ndim :: "ndarray \<Rightarrow> nat" where
  "ndim img = (case channels img of None \<Rightarrow> 2 | Some c \<Rightarrow> 3)"

definition nchannels :: "ndarray \<Rightarrow> nat" where
  "nchannels img = (case channels img of None \<Rightarrow> 1 | Some c \<Rightarrow> c)"

definition is_empty :: "ndarray \<Rightarrow> bool" where
  "is_empty img \<longleftrightarrow> height img = 0 \<or> width img = 0 \<or> channels img = Some 0"

definition max_dimension :: nat where
  "max_dimension = 2048"

section \<open>The library calls\<close>

text \<open>
  Two things the source leaves to its platform are parameters of the model, collected in
  an environment. \<open>resample\<close> gives the values that the library's area interpolation
  computes, in floating point, for a source and a target width and height: the element at
  each row-major index of the result. \<open>fround\<close> is the rounding of a number to a double,
  which every Python float operation applies to its exact result.
\<close>

type_synonym sampler = "ndarray \<Rightarrow> nat \<Rightarrow> nat \<Rightarrow> nat \<Rightarrow> int"

record cv_env =
  resample :: sampler
  fround :: "rat \<Rightarrow> rat"

text \<open>
  \<open>cv2.resize(src, (w, h), interpolation=cv2.INTER_AREA)\<close>. The call rejects an empty
  source, an empty target size and more than 512 channels. Otherwise it gives an array of
  \<open>h\<close> rows and \<open>w\<close> columns with the source's element type and channels; a result with
  one channel comes back two-dimensional.
\<close>

definition cv2_resize :: "cv_env \<Rightarrow> ndarray \<Rightarrow> nat \<times> nat \<Rightarrow> py_error + ndarray" where
  "cv2_resize env src dsize =
     (case dsize of (w, h) \<Rightarrow>
        if is_empty src \<or> w = 0 \<or> h = 0 \<or> 512 < nchannels src then Inl (CvError Resize)
        else Inr \<lparr>height = h, width = w,
                  channels = (if channels src = Some 1 then None else channels src),
                  dtype = dtype src,
                  data = map (resample env src w h) [0 ..< h * w * nchannels src]\<rparr>)"

text \<open>
  \<open>cv2.cvtColor(src, cv2.COLOR_BGR2GRAY)\<close> on 8-bit data, as OpenCV 4 computes it: the
  luma of each pixel in 15-bit fixed point, with the weights 0.114, 0.587 and 0.299 of
  blue, green and red, rounded to nearest. The call takes three or four channels (a fourth
  one is ignored) and rejects an empty source, every other channel count and 16-bit signed
  elements.
\<close>

definition luma :: "int \<Rightarrow> int \<Rightarrow> int \<Rightarrow> int" where
  "luma b g r = (b * 3735 + g * 19235 + r * 9798 + 16384) div 32768"

fun bgr2gray :: "int list \<Rightarrow> int list" where
  "bgr2gray (b # g # r # rest) = luma b g r # bgr2gray rest"
| "bgr2gray _ = []"

fun bgra2gray :: "int list \<Rightarrow> int list" where
  "bgra2gray (b # g # r # a # rest) = luma b g r # bgra2gray rest"
| "bgra2gray _ = []"

definition cv2_cvtColor_BGR2GRAY :: "ndarray \<Rightarrow> py_error + ndarray" where
  "cv2_cvtColor_BGR2GRAY src =
     (if is_empty src \<or> dtype src \<noteq> UInt8 then Inl (CvError CvtColor)
      else if channels src = Some 3 then
        Inr \<lparr>height = height src, width = width src, channels = None, dtype = UInt8,
             data = bgr2gray (data src)\<rparr>
      else if channels src = Some 4 then
        Inr \<lparr>height = height src, width = width src, channels = None, dtype = UInt8,
             data = bgra2gray (data src)\<rparr>
      else Inl (CvError CvtColor))"

text \<open>
  \<open>cv2.threshold(src, thresh, maxval, cv2.THRESH_BINARY)[1]\<close>: every element above
  \<open>thresh\<close> becomes \<open>maxval\<close>, every other element 0. What the library does with an
  empty source is not settled here: the definition maps the elements there are, and no
  theorem below depends on the threshold of an empty array.
\<close>

definition cv2_threshold :: "ndarray \<Rightarrow> int \<Rightarrow> int \<Rightarrow> ndarray" where
  "cv2_threshold src thresh maxval =
     src\<lparr>data := map (\<lambda>v. if v > thresh then maxval else 0) (data src)\<rparr>"

text \<open>
  \<open>cv2.bitwise_and\<close> and \<open>cv2.bitwise_or\<close> of two arrays: elementwise, on arrays of one
  shape and one element type.
\<close>

definition same_layout :: "ndarray \<Rightarrow> ndarray \<Rightarrow> bool" where
  "same_layout a b \<longleftrightarrow>
     height a = height b \<and> width a = width b \<and> channels a = channels b \<and> dtype a = dtype b"

definition cv2_bitwise_and :: "ndarray \<Rightarrow> ndarray \<Rightarrow> py_error + ndarray" where
  "cv2_bitwise_and a b =
     (if same_layout a b then Inr (a\<lparr>data := map2 (\<lambda>x y. x AND y) (data a) (data b)\<rparr>)
      else Inl (CvError Bitwise))"

definition cv2_bitwise_or :: "ndarray \<Rightarrow> ndarray \<Rightarrow> py_error + ndarray" where
  "cv2_bitwise_or a b =
     (if same_layout a b then Inr (a\<lparr>data := map2 (\<lambda>x y. x OR y) (data a) (data b)\<rparr>)
      else Inl (CvError Bitwise))"

text \<open>\<open>img.astype(np.uint8)\<close>: an integer element keeps its low eight bits.\<close>

definition astype_uint8 :: "ndarray \<Rightarrow> ndarray" where
  "astype_uint8 img = img\<lparr>dtype := UInt8, data := map (\<lambda>v. v mod 256) (data img)\<rparr>"

section \<open>The image processor\<close>

text \<open>
  \<open>resize_to_match\<close>: arrays of one height and width pass unchanged; otherwise both are
  resampled to the smaller height and the smaller width.
\<close>

definition resize_to_match ::
  "cv_env \<Rightarrow> ndarray \<Rightarrow> ndarray \<Rightarrow> py_error + (ndarray \<times> ndarray)" where
  "resize_to_match env img1 img2 =
     (let h1 = height img1; w1 = width img1; h2 = height img2; w2 = width img2 in
      if h1 = h2 \<and> w1 = w2 then Inr (img1, img2)
      else
        let target_height = min h1 h2; target_width = min w1 w2 in
        case cv2_resize env img1 (target_width, target_height) of
          Inl e \<Rightarrow> Inl e
        | Inr resized_img1 \<Rightarrow>
            (case cv2_resize env img2 (target_width, target_height) of
               Inl e \<Rightarrow> Inl e
             | Inr resized_img2 \<Rightarrow> Inr (resized_img1, resized_img2)))"

text \<open>
  \<open>resize_if_needed\<close>: an array higher or wider than \<open>max_dimension\<close> is scaled by
  \<open>min(max_dimension / height, max_dimension / width)\<close>, the new sizes truncated by
  \<open>int\<close>. Python computes in doubles: each quotient is rounded, \<open>width * scale\<close> turns
  the integer into a double and rounds the product. A height or width of 0 makes the
  division raise. \<open>int\<close> truncates towards zero; on the non-negative values here that is
  the floor.
\<close>

definition resize_if_needed :: "cv_env \<Rightarrow> ndarray \<Rightarrow> py_error + ndarray" where
  "resize_if_needed env img =
     (let h = height img; w = width img in
      if h > max_dimension \<or> w > max_dimension then
        if h = 0 \<or> w = 0 then Inl ZeroDivisionError
        else
          let scale = min (fround env (rat_of_nat max_dimension / rat_of_nat h))
                          (fround env (rat_of_nat max_dimension / rat_of_nat w));
              new_width = nat \<lfloor>fround env (fround env (rat_of_nat w) * scale)\<rfloor>;
              new_height = nat \<lfloor>fround env (fround env (rat_of_nat h) * scale)\<rfloor>
          in cv2_resize env img (new_width, new_height)
      else Inr img)"

definition optimize_memory_usage :: "cv_env \<Rightarrow> ndarray \<Rightarrow> py_error + ndarray" where
  "optimize_memory_usage env img =
     (case resize_if_needed env img of
        Inl e \<Rightarrow> Inl e
      | Inr img' \<Rightarrow> Inr (if dtype img' \<noteq> UInt8 then astype_uint8 img' else img'))"

definition convert_to_binary :: "ndarray \<Rightarrow> py_error + ndarray" where
  "convert_to_binary img =
     (case (if ndim img = 3 then cv2_cvtColor_BGR2GRAY img else Inr img) of
        Inl e \<Rightarrow> Inl e
      | Inr gray \<Rightarrow> Inr (cv2_threshold gray 127 255))"

text \<open>
  \<open>logical_and\<close> and \<open>union_operation\<close>, in the order of the source: reconcile the
  sizes, normalise the first and the second array, binarise the first and the second array,
  combine them.
\<close>

definition logical_and :: "cv_env \<Rightarrow> ndarray \<Rightarrow> ndarray \<Rightarrow> py_error + ndarray" where
  "logical_and env img1 img2 =
     (case resize_to_match env img1 img2 of
        Inl e \<Rightarrow> Inl e
      | Inr (m1, m2) \<Rightarrow>
          (case optimize_memory_usage env m1 of
             Inl e \<Rightarrow> Inl e
           | Inr o1 \<Rightarrow>
               (case optimize_memory_usage env m2 of
                  Inl e \<Rightarrow> Inl e
                | Inr o2 \<Rightarrow>
                    (case convert_to_binary o1 of
                       Inl e \<Rightarrow> Inl e
                     | Inr binary1 \<Rightarrow>
                         (case convert_to_binary o2 of
                            Inl e \<Rightarrow> Inl e
                          | Inr binary2 \<Rightarrow> cv2_bitwise_and binary1 binary2)))))"

definition union_operation :: "cv_env \<Rightarrow> ndarray \<Rightarrow> ndarray \<Rightarrow> py_error + ndarray" where
  "union_operation env img1 img2 =
     (case resize_to_match env img1 img2 of
        Inl e \<Rightarrow> Inl e
      | Inr (m1, m2) \<Rightarrow>
          (case optimize_memory_usage env m1 of
             Inl e \<Rightarrow> Inl e
           | Inr o1 \<Rightarrow>
               (case optimize_memory_usage env m2 of
                  Inl e \<Rightarrow> Inl e
                | Inr o2 \<Rightarrow>
                    (case convert_to_binary o1 of
                       Inl e \<Rightarrow> Inl e
                     | Inr binary1 \<Rightarrow>
                         (case convert_to_binary o2 of
                            Inl e \<Rightarrow> Inl e
                          | Inr binary2 \<Rightarrow> cv2_bitwise_or binary1 binary2)))))"

text \<open>\<open>get_image_info\<close>: the dictionary it returns, one field per key.\<close>

record image_info =
  info_shape :: "nat list"
  info_height :: nat
  info_width :: nat
  info_channels :: nat
  info_dtype :: string
  info_size :: nat

definition shape :: "ndarray \<Rightarrow> nat list" where
  "shape img = (case channels img of None \<Rightarrow> [height img, width img]
                | Some c \<Rightarrow> [height img, width img, c])"

definition dtype_str :: "dtype \<Rightarrow> string" where
  "dtype_str d = (case d of UInt8 \<Rightarrow> ''uint8'' | Int16 \<Rightarrow> ''int16'')"

definition get_image_info :: "ndarray \<Rightarrow> image_info" where
  "get_image_info img =
     \<lparr>info_shape = shape img,
      info_height = shape img ! 0,
      info_width = shape img ! 1,
      info_channels = (if length (shape img) = 2 then length (shape img) else shape img ! 2),
      info_dtype = dtype_str (dtype img),
      info_size = prod_list (shape img)\<rparr>"

section \<open>Notions of the specification\<close>

text \<open>
  An array is well formed when it is not empty, is two-dimensional or has three channels,
  holds 8-bit elements and has one element per position. A pixel buffer of the
  specification is a well-formed array whose elements are between 0 and 255.
\<close>

definition well_formed :: "ndarray \<Rightarrow> bool" where
  "well_formed img \<longleftrightarrow>
     0 < height img \<and> 0 < width img \<and> (channels img = None \<or> channels img = Some 3) \<and>
     dtype img = UInt8 \<and> length (data img) = height img * width img * nchannels img"

definition valid_buffer :: "ndarray \<Rightarrow> bool" where
  "valid_buffer img \<longleftrightarrow> well_formed img \<and> list_all (\<lambda>v. 0 \<le> v \<and> v \<le> 255) (data img)"

definition binary_buffer :: "ndarray \<Rightarrow> bool" where
  "binary_buffer img \<longleftrightarrow>
     well_formed img \<and> channels img = None \<and> list_all (\<lambda>v. v = 0 \<or> v = 255) (data img)"

text \<open>
  The size the pipeline works at: the smaller height and the smaller width of the two
  inputs, scaled down as \<open>resize_if_needed\<close> computes it when one of them exceeds the
  ceiling.
\<close>

definition target_size :: "ndarray \<Rightarrow> ndarray \<Rightarrow> nat \<times> nat" where
  "target_size a b = (min (height a) (height b), min (width a) (width b))"

definition clamped_size :: "cv_env \<Rightarrow> nat \<times> nat \<Rightarrow> nat \<times> nat" where
  "clamped_size env hw =
     (case hw of (h, w) \<Rightarrow>
        if h > max_dimension \<or> w > max_dimension then
          (let scale = min (fround env (rat_of_nat max_dimension / rat_of_nat h))
                           (fround env (rat_of_nat max_dimension / rat_of_nat w))
           in (nat \<lfloor>fround env (fround env (rat_of_nat h) * scale)\<rfloor>,
               nat \<lfloor>fround env (fround env (rat_of_nat w) * scale)\<rfloor>))
        else (h, w))"

definition reconciled_size :: "cv_env \<Rightarrow> ndarray \<Rightarrow> ndarray \<Rightarrow> nat \<times> nat" where
  "reconciled_size env a b = clamped_size env (target_size a b)"

text \<open>
  Rounding to a double, as far as the theorems need it: it keeps the order of numbers, and
  a positive number moves by at most one part in \<open>2 ^ 53\<close>. Round-to-nearest with 53
  significant bits has both properties on the normal range of doubles, from
  \<open>2 ^ -1022\<close> to \<open>2 ^ 1023\<close>. The sides of an array are below \<open>2 ^ 63\<close>, so
  \<open>resize_if_needed\<close> only rounds numbers between \<open>2 ^ -53\<close> and \<open>2 ^ 76\<close>;
  a rounding that agrees with the machine's on these and changes no number outside the
  normal range has both properties everywhere.
\<close>

definition rounds_to_double :: "(rat \<Rightarrow> rat) \<Rightarrow> bool" where
  "rounds_to_double rnd \<longleftrightarrow>
     (\<forall>x y. x \<le> y \<longrightarrow> rnd x \<le> rnd y) \<and>
     (\<forall>x. 0 < x \<longrightarrow> \<bar>rnd x - x\<bar> \<le> x / 2 ^ 53)"

text \<open>
  The steps that \<open>logical_and\<close> and \<open>union_operation\<close> share, up to the two binarised
  arrays.
\<close>

definition binarised ::
  "cv_env \<Rightarrow> ndarray \<Rightarrow> ndarray \<Rightarrow> py_error + (ndarray \<times> ndarray)" where
  "binarised env img1 img2 =
     (case resize_to_match env img1 img2 of
        Inl e \<Rightarrow> Inl e
      | Inr (m1, m2) \<Rightarrow>
          (case optimize_memory_usage env m1 of
             Inl e \<Rightarrow> Inl e
           | Inr o1 \<Rightarrow>
               (case optimize_memory_usage env m2 of
                  Inl e \<Rightarrow> Inl e
                | Inr o2 \<Rightarrow>
                    (case convert_to_binary o1 of
                       Inl e \<Rightarrow> Inl e
                     | Inr binary1 \<Rightarrow>
                         (case convert_to_binary o2 of
                            Inl e \<Rightarrow> Inl e
                          | Inr binary2 \<Rightarrow> Inr (binary1, binary2))))))"

text \<open>A sampler keeps the value \<open>c\<close> when it resamples an array of \<open>c\<close>s to \<open>c\<close>s.\<close>

definition keeps_constant :: "sampler \<Rightarrow> int \<Rightarrow> bool" where
  "keeps_constant f c \<longleftrightarrow>
     (\<forall>src w h i. data src \<noteq> [] \<and> list_all (\<lambda>v. v = c) (data src) \<longrightarrow> f src w h i = c)"

text \<open>
  An environment to run the pipeline with: the sampler repeats the first element of the
  source, and rounding changes nothing. The examples below use sizes on which Python's
  doubles are exact as well.
\<close>

definition first_sample :: sampler where
  "first_sample src w h i = (if data src = [] then 0 else hd (data src))"

definition exact_env :: cv_env where
  "exact_env = \<lparr>resample = first_sample, fround = (\<lambda>x. x)\<rparr>"

section \<open>Example buffers\<close>

text \<open>Concrete arrays on which the theorems below are run.\<close>

definition empty_0x0 :: ndarray where
  "empty_0x0 = \<lparr>height = 0, width = 0, channels = None, dtype = UInt8, data = []\<rparr>"

definition gray_1x1 :: ndarray where
  "gray_1x1 = \<lparr>height = 1, width = 1, channels = None, dtype = UInt8, data = [0]\<rparr>"

definition white_1x1 :: ndarray where
  "white_1x1 = \<lparr>height = 1, width = 1, channels = None, dtype = UInt8, data = [255]\<rparr>"

definition bgra_1x1 :: ndarray where
  "bgra_1x1 = \<lparr>height = 1, width = 1, channels = Some 4, dtype = UInt8,
                data = [200, 200, 200, 255]\<rparr>"

definition two_channel_1x1 :: ndarray where
  "two_channel_1x1 = \<lparr>height = 1, width = 1, channels = Some 2, dtype = UInt8,
                       data = [200, 200]\<rparr>"

definition int16_1x2 :: ndarray where
  "int16_1x2 = \<lparr>height = 1, width = 2, channels = None, dtype = Int16, data = [256, 300]\<rparr>"

definition gray_1x2 :: ndarray where
  "gray_1x2 = \<lparr>height = 1, width = 2, channels = None, dtype = UInt8, data = [255, 0]\<rparr>"

definition bgr_1x2 :: ndarray where
  "bgr_1x2 = \<lparr>height = 1, width = 2, channels = Some 3, dtype = UInt8,
               data = [0, 0, 255, 255, 255, 255]\<rparr>"

definition white_4x4 :: ndarray where
  "white_4x4 = \<lparr>height = 4, width = 4, channels = None, dtype = UInt8,
                 data = replicate 16 255\<rparr>"

definition black_2x2 :: ndarray where
  "black_2x2 = \<lparr>height = 2, width = 2, channels = None, dtype = UInt8,
                 data = replicate 4 0\<rparr>"

definition column_4096 :: ndarray where
  "column_4096 = \<lparr>height = 4096, width = 1, channels = None, dtype = UInt8,
                   data = replicate 4096 0\<rparr>"

definition strip_4096x2 :: ndarray where
  "strip_4096x2 = \<lparr>height = 4096, width = 2, channels = None, dtype = UInt8,
                    data = replicate 8192 255\<rparr>"

definition band_8192x4 :: ndarray where
  "band_8192x4 = \<lparr>height = 8192, width = 4, channels = None, dtype = UInt8,
                   data = replicate 32768 0\<rparr>"

definition white_column_4096 :: ndarray where
  "white_column_4096 = \<lparr>height = 4096, width = 1, channels = None, dtype = UInt8,
                         data = replicate 4096 255\<rparr>"

definition column_4097 :: ndarray where
  "column_4097 = \<lparr>height = 4097, width = 1, channels = None, dtype = UInt8,
                   data = replicate 4097 0\<rparr>"

section \<open>The stages of the pipeline on well-formed arrays\<close>

lemma length_bgr2gray: "length (bgr2gray xs) = length xs div 3"
  by (induction xs rule: bgr2gray.induct) simp_all

lemma well_formed_not_empty: "well_formed img \<Longrightarrow> \<not> is_empty img"
  by (auto simp: well_formed_def is_empty_def)

lemma cv2_resize_well_formed:
  assumes "well_formed img" "0 < w" "0 < h"
  shows "\<exists>r. cv2_resize env img (w, h) = Inr r \<and> well_formed r \<and> height r = h \<and>
             width r = w \<and> channels r = channels img \<and>
             data r = map (resample env img w h) [0 ..< h * w * nchannels img]"
  using assms
  by (auto simp: cv2_resize_def well_formed_def is_empty_def nchannels_def)

lemma cv2_resize_zero:
  "w = 0 \<or> h = 0 \<Longrightarrow> cv2_resize env img (w, h) = Inl (CvError Resize)"
  by (auto simp: cv2_resize_def)

lemma resize_to_match_well_formed:
  assumes "well_formed a" "well_formed b"
  shows "\<exists>m1 m2. resize_to_match env a b = Inr (m1, m2) \<and> well_formed m1 \<and> well_formed m2 \<and>
           (height m1, width m1) = target_size a b \<and> (height m2, width m2) = target_size a b \<and>
           channels m1 = channels a \<and> channels m2 = channels b"
proof (cases "height a = height b \<and> width a = width b")
  case True
  with assms show ?thesis by (simp add: resize_to_match_def target_size_def)
next
  case False
  have pos: "0 < min (width a) (width b)" "0 < min (height a) (height b)"
    using assms by (simp_all add: well_formed_def)
  from cv2_resize_well_formed [OF assms(1) pos, of env]
  obtain r1 where r1: "cv2_resize env a (min (width a) (width b), min (height a) (height b)) = Inr r1"
    "well_formed r1" "height r1 = min (height a) (height b)" "width r1 = min (width a) (width b)"
    "channels r1 = channels a" by blast
  from cv2_resize_well_formed [OF assms(2) pos, of env]
  obtain r2 where r2: "cv2_resize env b (min (width a) (width b), min (height a) (height b)) = Inr r2"
    "well_formed r2" "height r2 = min (height a) (height b)" "width r2 = min (width a) (width b)"
    "channels r2 = channels b" by blast
  from False r1 r2 show ?thesis
    by (auto simp: resize_to_match_def target_size_def Let_def)
qed

lemma resize_if_needed_clamped:
  assumes "well_formed m"
  shows "resize_if_needed env m =
           (if height m > max_dimension \<or> width m > max_dimension
            then cv2_resize env m (snd (clamped_size env (height m, width m)),
                                    fst (clamped_size env (height m, width m)))
            else Inr m)"
  using assms by (simp add: resize_if_needed_def clamped_size_def well_formed_def Let_def)

lemma clamped_size_small:
  "\<not> (h > max_dimension \<or> w > max_dimension) \<Longrightarrow> clamped_size env (h, w) = (h, w)"
  by (simp add: clamped_size_def)

lemma optimize_memory_usage_fails:
  assumes "well_formed m"
    "fst (clamped_size env (height m, width m)) = 0 \<or> snd (clamped_size env (height m, width m)) = 0"
  shows "optimize_memory_usage env m = Inl (CvError Resize)"
proof (cases "height m > max_dimension \<or> width m > max_dimension")
  case False
  from clamped_size_small [OF this] assms show ?thesis by (simp add: well_formed_def)
next
  case True
  have "cv2_resize env m (snd (clamped_size env (height m, width m)),
          fst (clamped_size env (height m, width m))) = Inl (CvError Resize)"
    using assms(2) by (auto simp: cv2_resize_def)
  with True show ?thesis
    by (simp add: optimize_memory_usage_def resize_if_needed_clamped [OF assms(1)])
qed

lemma optimize_memory_usage_well_formed:
  assumes "well_formed m"
    "0 < fst (clamped_size env (height m, width m))" "0 < snd (clamped_size env (height m, width m))"
  shows "\<exists>r. optimize_memory_usage env m = Inr r \<and> well_formed r \<and>
           height r = fst (clamped_size env (height m, width m)) \<and>
           width r = snd (clamped_size env (height m, width m)) \<and> channels r = channels m"
proof (cases "height m > max_dimension \<or> width m > max_dimension")
  case False
  have "dtype m = UInt8" using assms(1) by (simp add: well_formed_def)
  with False assms(1) show ?thesis
    by (simp add: optimize_memory_usage_def resize_if_needed_clamped [OF assms(1)]
        clamped_size_small [OF False])
next
  case True
  from cv2_resize_well_formed [OF assms(1,3,2), of env]
  obtain r where r: "cv2_resize env m (snd (clamped_size env (height m, width m)),
      fst (clamped_size env (height m, width m))) = Inr r" "well_formed r"
    "height r = fst (clamped_size env (height m, width m))"
    "width r = snd (clamped_size env (height m, width m))" "channels r = channels m" by blast
  then have "dtype r = UInt8" by (simp add: well_formed_def)
  with True r show ?thesis
    by (simp add: optimize_memory_usage_def resize_if_needed_clamped [OF assms(1)])
qed

lemma convert_to_binary_well_formed:
  assumes "well_formed m"
  shows "convert_to_binary m =
           Inr \<lparr>height = height m, width = width m, channels = None, dtype = UInt8,
                data = map (\<lambda>v. if v > 127 then 255 else 0)
                         (if channels m = Some 3 then bgr2gray (data m) else data m)\<rparr>"
  using assms
  by (auto simp: convert_to_binary_def ndim_def cv2_cvtColor_BGR2GRAY_def cv2_threshold_def
      well_formed_def is_empty_def)

lemma cv2_resize_constant:
  assumes "keeps_constant (resample env) c" "data img \<noteq> []" "list_all (\<lambda>v. v = c) (data img)"
    "cv2_resize env img (w, h) = Inr r"
  shows "list_all (\<lambda>v. v = c) (data r)"
proof -
  have "\<And>i. resample env img w h i = c"
    using assms(1-3) unfolding keeps_constant_def by blast
  with assms(4) show ?thesis
    by (auto simp: cv2_resize_def list_all_iff split: if_splits)
qed

lemma well_formed_data: "well_formed img \<Longrightarrow> data img \<noteq> []"
  by (auto simp: well_formed_def nchannels_def)

lemma resize_to_match_constant1:
  assumes "keeps_constant (resample env) c" "well_formed a" "list_all (\<lambda>v. v = c) (data a)"
    "resize_to_match env a b = Inr (m1, m2)"
  shows "list_all (\<lambda>v. v = c) (data m1)"
  using assms(3,4) cv2_resize_constant [OF assms(1) well_formed_data [OF assms(2)] assms(3)]
  by (auto simp: resize_to_match_def Let_def split: if_splits sum.splits)

lemma resize_to_match_constant2:
  assumes "keeps_constant (resample env) c" "well_formed b" "list_all (\<lambda>v. v = c) (data b)"
    "resize_to_match env a b = Inr (m1, m2)"
  shows "list_all (\<lambda>v. v = c) (data m2)"
  using assms(3,4) cv2_resize_constant [OF assms(1) well_formed_data [OF assms(2)] assms(3)]
  by (auto simp: resize_to_match_def Let_def split: if_splits sum.splits)

lemma resize_if_needed_cases:
  "resize_if_needed env m = Inr r \<Longrightarrow> r = m \<or> (\<exists>w h. cv2_resize env m (w, h) = Inr r)"
  unfolding resize_if_needed_def Let_def by (metis Inl_Inr_False sum.inject(2))

lemma cv2_resize_dtype: "cv2_resize env m (w, h) = Inr r \<Longrightarrow> dtype r = dtype m"
  by (auto simp: cv2_resize_def split: if_splits)

lemma optimize_memory_usage_constant:
  assumes "keeps_constant (resample env) c" "well_formed m" "list_all (\<lambda>v. v = c) (data m)"
    "optimize_memory_usage env m = Inr r"
  shows "list_all (\<lambda>v. v = c) (data r)"
proof -
  have u8: "dtype m = UInt8" using assms(2) by (simp add: well_formed_def)
  from assms(4) obtain r' where r': "resize_if_needed env m = Inr r'"
    "r = (if dtype r' \<noteq> UInt8 then astype_uint8 r' else r')"
    by (auto simp: optimize_memory_usage_def split: sum.splits)
  from resize_if_needed_cases [OF r'(1)] have "dtype r' = UInt8 \<and> list_all (\<lambda>v. v = c) (data r')"
    using u8 assms(3) cv2_resize_dtype
      cv2_resize_constant [OF assms(1) well_formed_data [OF assms(2)] assms(3)] by metis
  with r'(2) show ?thesis by simp
qed
lemma normalise_pair_fails:
  assumes "well_formed a" "well_formed b"
    "fst (reconciled_size env a b) = 0 \<or> snd (reconciled_size env a b) = 0"
  shows "\<exists>m1 m2. resize_to_match env a b = Inr (m1, m2) \<and>
           optimize_memory_usage env m1 = Inl (CvError Resize)"
proof -
  from resize_to_match_well_formed [OF assms(1,2), of env]
  obtain m1 m2 where m: "resize_to_match env a b = Inr (m1, m2)" "well_formed m1"
    "(height m1, width m1) = target_size a b" by blast
  have "clamped_size env (height m1, width m1) = reconciled_size env a b"
    using m(3) by (simp add: reconciled_size_def)
  with assms(3) optimize_memory_usage_fails [OF m(2), of env]
  have "optimize_memory_usage env m1 = Inl (CvError Resize)" by simp
  with m(1) show ?thesis by blast
qed

lemma normalise_pair:
  assumes "well_formed a" "well_formed b"
    "0 < fst (reconciled_size env a b)" "0 < snd (reconciled_size env a b)"
  shows "\<exists>m1 m2 o1 o2. resize_to_match env a b = Inr (m1, m2) \<and>
           optimize_memory_usage env m1 = Inr o1 \<and>
           optimize_memory_usage env m2 = Inr o2 \<and> well_formed o1 \<and> well_formed o2 \<and>
           height o1 = fst (reconciled_size env a b) \<and> width o1 = snd (reconciled_size env a b) \<and>
           height o2 = fst (reconciled_size env a b) \<and> width o2 = snd (reconciled_size env a b) \<and>
           channels o1 = channels a \<and> channels o2 = channels b \<and>
           (keeps_constant (resample env) c \<and> list_all (\<lambda>v. v = c) (data a)
              \<longrightarrow> list_all (\<lambda>v. v = c) (data o1)) \<and>
           (keeps_constant (resample env) d \<and> list_all (\<lambda>v. v = d) (data b)
              \<longrightarrow> list_all (\<lambda>v. v = d) (data o2))"
proof -
  from resize_to_match_well_formed [OF assms(1,2), of env]
  obtain m1 m2 where m: "resize_to_match env a b = Inr (m1, m2)" "well_formed m1"
    "well_formed m2" "(height m1, width m1) = target_size a b"
    "(height m2, width m2) = target_size a b" "channels m1 = channels a"
    "channels m2 = channels b" by blast
  have rs: "clamped_size env (height m1, width m1) = reconciled_size env a b"
    "clamped_size env (height m2, width m2) = reconciled_size env a b"
    using m(4,5) by (simp_all add: reconciled_size_def)
  from optimize_memory_usage_well_formed [OF m(2), of env, unfolded rs, OF assms(3,4)]
  obtain p1 where p1: "optimize_memory_usage env m1 = Inr p1" "well_formed p1"
    "height p1 = fst (reconciled_size env a b)" "width p1 = snd (reconciled_size env a b)"
    "channels p1 = channels m1" by blast
  from optimize_memory_usage_well_formed [OF m(3), of env, unfolded rs, OF assms(3,4)]
  obtain p2 where p2: "optimize_memory_usage env m2 = Inr p2" "well_formed p2"
    "height p2 = fst (reconciled_size env a b)" "width p2 = snd (reconciled_size env a b)"
    "channels p2 = channels m2" by blast
  have c1: "keeps_constant (resample env) c \<and> list_all (\<lambda>v. v = c) (data a)
              \<longrightarrow> list_all (\<lambda>v. v = c) (data p1)"
  proof
    assume k: "keeps_constant (resample env) c \<and> list_all (\<lambda>v. v = c) (data a)"
    then have "list_all (\<lambda>v. v = c) (data m1)"
      using resize_to_match_constant1 [OF _ assms(1) _ m(1)] by blast
    with k show "list_all (\<lambda>v. v = c) (data p1)"
      using optimize_memory_usage_constant [OF _ m(2) _ p1(1)] by blast
  qed
  have c2: "keeps_constant (resample env) d \<and> list_all (\<lambda>v. v = d) (data b)
              \<longrightarrow> list_all (\<lambda>v. v = d) (data p2)"
  proof
    assume k: "keeps_constant (resample env) d \<and> list_all (\<lambda>v. v = d) (data b)"
    then have "list_all (\<lambda>v. v = d) (data m2)"
      using resize_to_match_constant2 [OF _ assms(2) _ m(1)] by blast
    with k show "list_all (\<lambda>v. v = d) (data p2)"
      using optimize_memory_usage_constant [OF _ m(3) _ p2(1)] by blast
  qed
  show ?thesis
    apply (rule exI [of _ m1], rule exI [of _ m2], rule exI [of _ p1], rule exI [of _ p2])
    apply (intro conjI)
    apply (rule m(1) p1(1) p2(1) p1(2) p2(2) p1(3) p1(4) p2(3) p2(4) c1 c2
        trans [OF p1(5) m(6)] trans [OF p2(5) m(7)])+
    done
qed

lemma bgr2gray_constant:
  "list_all (\<lambda>v. v = c) xs \<Longrightarrow> list_all (\<lambda>v. v = luma c c c) (bgr2gray xs)"
  by (induction xs rule: bgr2gray.induct) simp_all

lemma threshold_zero:
  "list_all (\<lambda>v. v = 0) xs \<Longrightarrow>
     list_all (\<lambda>v. v = 0) (map (\<lambda>v::int. if v > 127 then 255 else (0::int)) xs)"
  by (induction xs) auto

lemma threshold_white:
  "list_all (\<lambda>v. v = 255) xs \<Longrightarrow>
     list_all (\<lambda>v. v = 255) (map (\<lambda>v::int. if v > 127 then 255 else (0::int)) xs)"
  by (induction xs) auto

lemma threshold_binary:
  "list_all (\<lambda>v. v = 0 \<or> v = 255) (map (\<lambda>v::int. if v > 127 then 255 else (0::int)) xs)"
  by (induction xs) auto

lemma convert_to_binary_binary_buffer:
  assumes "well_formed m"
  shows "\<exists>r. convert_to_binary m = Inr r \<and> binary_buffer r \<and> height r = height m \<and>
           width r = width m \<and>
           (list_all (\<lambda>v. v = 0) (data m) \<longrightarrow> list_all (\<lambda>v. v = 0) (data r)) \<and>
           (list_all (\<lambda>v. v = 255) (data m) \<longrightarrow> list_all (\<lambda>v. v = 255) (data r))"
proof -
  define g where "g = (if channels m = Some 3 then bgr2gray (data m) else data m)"
  define r where "r = \<lparr>height = height m, width = width m, channels = None, dtype = UInt8,
             data = map (\<lambda>v. if v > 127 then 255 else 0) g\<rparr>"
  have conv: "convert_to_binary m = Inr r"
    unfolding r_def g_def by (rule convert_to_binary_well_formed [OF assms])
  have len: "length g = height m * width m"
    using assms by (auto simp: g_def well_formed_def nchannels_def length_bgr2gray)
  have bin: "binary_buffer r"
    using assms len threshold_binary [of g]
    by (simp add: r_def binary_buffer_def well_formed_def nchannels_def)
  have z: "list_all (\<lambda>v. v = 0) (data r)" if "list_all (\<lambda>v. v = 0) (data m)"
  proof -
    have "list_all (\<lambda>v. v = 0) g"
      using that bgr2gray_constant [of 0 "data m"] by (simp add: g_def luma_def)
    from threshold_zero [OF this] show ?thesis by (simp add: r_def)
  qed
  have w: "list_all (\<lambda>v. v = 255) (data r)" if "list_all (\<lambda>v. v = 255) (data m)"
  proof -
    have "list_all (\<lambda>v. v = 255) g"
      using that bgr2gray_constant [of 255 "data m"] by (simp add: g_def luma_def)
    from threshold_white [OF this] show ?thesis by (simp add: r_def)
  qed
  have dims: "height r = height m" "width r = width m" by (simp_all add: r_def)
  from conv bin dims z w show ?thesis by blast
qed

lemma binarised_pair:
  assumes "well_formed a" "well_formed b"
    "0 < fst (reconciled_size env a b)" "0 < snd (reconciled_size env a b)"
  shows "\<exists>b1 b2. logical_and env a b = cv2_bitwise_and b1 b2 \<and>
           union_operation env a b = cv2_bitwise_or b1 b2 \<and>
           binary_buffer b1 \<and> binary_buffer b2 \<and>
           height b1 = fst (reconciled_size env a b) \<and> width b1 = snd (reconciled_size env a b) \<and>
           height b2 = fst (reconciled_size env a b) \<and> width b2 = snd (reconciled_size env a b) \<and>
           (keeps_constant (resample env) 0 \<and> list_all (\<lambda>v. v = 0) (data a)
              \<longrightarrow> list_all (\<lambda>v. v = 0) (data b1)) \<and>
           (keeps_constant (resample env) 255 \<and> list_all (\<lambda>v. v = 255) (data a)
              \<longrightarrow> list_all (\<lambda>v. v = 255) (data b1)) \<and>
           (keeps_constant (resample env) 0 \<and> list_all (\<lambda>v. v = 0) (data b)
              \<longrightarrow> list_all (\<lambda>v. v = 0) (data b2)) \<and>
           (keeps_constant (resample env) 255 \<and> list_all (\<lambda>v. v = 255) (data b)
              \<longrightarrow> list_all (\<lambda>v. v = 255) (data b2))"
proof -
  from normalise_pair [OF assms, of 0 0]
  obtain m1 m2 o1 o2 where n: "resize_to_match env a b = Inr (m1, m2)"
    "optimize_memory_usage env m1 = Inr o1" "optimize_memory_usage env m2 = Inr o2"
    "well_formed o1" "well_formed o2"
    "height o1 = fst (reconciled_size env a b)" "width o1 = snd (reconciled_size env a b)"
    "height o2 = fst (reconciled_size env a b)" "width o2 = snd (reconciled_size env a b)"
    "keeps_constant (resample env) 0 \<and> list_all (\<lambda>v. v = 0) (data a) \<longrightarrow> list_all (\<lambda>v. v = 0) (data o1)"
    "keeps_constant (resample env) 0 \<and> list_all (\<lambda>v. v = 0) (data b) \<longrightarrow> list_all (\<lambda>v. v = 0) (data o2)"
    by blast
  have k: "keeps_constant (resample env) 255 \<and> list_all (\<lambda>v. v = 255) (data a)
             \<longrightarrow> list_all (\<lambda>v. v = 255) (data o1)"
    "keeps_constant (resample env) 255 \<and> list_all (\<lambda>v. v = 255) (data b)
             \<longrightarrow> list_all (\<lambda>v. v = 255) (data o2)"
    using normalise_pair [OF assms, of 255 255] n(1,2,3) by auto
  from convert_to_binary_binary_buffer [OF n(4)]
  obtain b1 where b1: "convert_to_binary o1 = Inr b1" "binary_buffer b1" "height b1 = height o1"
    "width b1 = width o1"
    "list_all (\<lambda>v. v = 0) (data o1) \<longrightarrow> list_all (\<lambda>v. v = 0) (data b1)"
    "list_all (\<lambda>v. v = 255) (data o1) \<longrightarrow> list_all (\<lambda>v. v = 255) (data b1)" by blast
  from convert_to_binary_binary_buffer [OF n(5)]
  obtain b2 where b2: "convert_to_binary o2 = Inr b2" "binary_buffer b2" "height b2 = height o2"
    "width b2 = width o2"
    "list_all (\<lambda>v. v = 0) (data o2) \<longrightarrow> list_all (\<lambda>v. v = 0) (data b2)"
    "list_all (\<lambda>v. v = 255) (data o2) \<longrightarrow> list_all (\<lambda>v. v = 255) (data b2)" by blast
  have la: "logical_and env a b = cv2_bitwise_and b1 b2"
    by (simp add: logical_and_def n(1,2,3) b1(1) b2(1))
  have un: "union_operation env a b = cv2_bitwise_or b1 b2"
    by (simp add: union_operation_def n(1,2,3) b1(1) b2(1))
  have d: "height b1 = fst (reconciled_size env a b)" "width b1 = snd (reconciled_size env a b)"
    "height b2 = fst (reconciled_size env a b)" "width b2 = snd (reconciled_size env a b)"
    using b1(3,4) b2(3,4) n(6-9) by simp_all
  have c: "keeps_constant (resample env) 0 \<and> list_all (\<lambda>v. v = 0) (data a)
             \<longrightarrow> list_all (\<lambda>v. v = 0) (data b1)"
    "keeps_constant (resample env) 255 \<and> list_all (\<lambda>v. v = 255) (data a)
             \<longrightarrow> list_all (\<lambda>v. v = 255) (data b1)"
    "keeps_constant (resample env) 0 \<and> list_all (\<lambda>v. v = 0) (data b)
             \<longrightarrow> list_all (\<lambda>v. v = 0) (data b2)"
    "keeps_constant (resample env) 255 \<and> list_all (\<lambda>v. v = 255) (data b)
             \<longrightarrow> list_all (\<lambda>v. v = 255) (data b2)"
    using n(10,11) k b1(5,6) b2(5,6) by blast+
  show ?thesis
    apply (rule exI [of _ b1], rule exI [of _ b2])
    apply (intro conjI)
    apply (rule la un b1(2) b2(2) d c)+
    done
qed

lemma combine_fails:
  assumes "well_formed a" "well_formed b"
    "fst (reconciled_size env a b) = 0 \<or> snd (reconciled_size env a b) = 0"
  shows "logical_and env a b = Inl (CvError Resize) \<and> union_operation env a b = Inl (CvError Resize)"
proof -
  from normalise_pair_fails [OF assms]
  obtain m1 m2 where "resize_to_match env a b = Inr (m1, m2)"
    "optimize_memory_usage env m1 = Inl (CvError Resize)" by blast
  then show ?thesis by (simp add: logical_and_def union_operation_def)
qed

lemma list_all_map2:
  assumes "list_all P xs" "list_all Q ys" "\<And>x y. P x \<Longrightarrow> Q y \<Longrightarrow> R (f x y)"
  shows "list_all R (map2 f xs ys)"
  using assms(1,2)
proof (induction xs arbitrary: ys)
  case Nil
  then show ?case by simp
next
  case (Cons x xs)
  then show ?case by (cases ys) (simp_all add: assms(3))
qed

lemma and_binary: "(x = 0 \<or> x = 255) \<Longrightarrow> (y = 0 \<or> y = 255) \<Longrightarrow> x AND y = 0 \<or> x AND y = (255::int)"
  by auto

lemma or_binary: "(x = 0 \<or> x = 255) \<Longrightarrow> (y = 0 \<or> y = 255) \<Longrightarrow> x OR y = 0 \<or> x OR y = (255::int)"
  by auto

lemma or_white: "x = 255 \<Longrightarrow> (y = 0 \<or> y = 255) \<Longrightarrow> x OR y = (255::int)"
  by auto

lemma and_zero: "x = 0 \<Longrightarrow> (y = 0 \<or> y = 255) \<Longrightarrow> x AND y = (0::int)"
  by auto

lemma and_zero_right: "(x = 0 \<or> x = 255) \<Longrightarrow> y = 0 \<Longrightarrow> x AND y = (0::int)"
  by simp

lemma or_white_right: "(x = 0 \<or> x = 255) \<Longrightarrow> y = 255 \<Longrightarrow> x OR y = (255::int)"
  by (elim disjE) simp_all

lemma bitwise_binary:
  assumes "binary_buffer b1" "binary_buffer b2" "height b1 = height b2" "width b1 = width b2"
  shows "\<exists>r s. cv2_bitwise_and b1 b2 = Inr r \<and> cv2_bitwise_or b1 b2 = Inr s \<and>
           binary_buffer r \<and> binary_buffer s \<and> height r = height b1 \<and> width r = width b1 \<and>
           height s = height b1 \<and> width s = width b1 \<and>
           (list_all (\<lambda>v. v = 0) (data b1) \<longrightarrow> list_all (\<lambda>v. v = 0) (data r)) \<and>
           (list_all (\<lambda>v. v = 255) (data b1) \<longrightarrow> list_all (\<lambda>v. v = 255) (data s)) \<and>
           (list_all (\<lambda>v. v = 0) (data b2) \<longrightarrow> list_all (\<lambda>v. v = 0) (data r)) \<and>
           (list_all (\<lambda>v. v = 255) (data b2) \<longrightarrow> list_all (\<lambda>v. v = 255) (data s))"
proof -
  define r where "r = b1\<lparr>data := map2 (\<lambda>x y. x AND y) (data b1) (data b2)\<rparr>"
  define s where "s = b1\<lparr>data := map2 (\<lambda>x y. x OR y) (data b1) (data b2)\<rparr>"
  have lay: "same_layout b1 b2"
    using assms by (simp add: same_layout_def binary_buffer_def well_formed_def)
  have len: "length (data b1) = length (data b2)"
    using assms by (auto simp: binary_buffer_def well_formed_def nchannels_def)
  have v1: "list_all (\<lambda>v. v = 0 \<or> v = 255) (data b1)"
    and v2: "list_all (\<lambda>v. v = 0 \<or> v = 255) (data b2)"
    using assms(1,2) by (simp_all add: binary_buffer_def)
  have ra: "cv2_bitwise_and b1 b2 = Inr r" and so: "cv2_bitwise_or b1 b2 = Inr s"
    using lay by (simp_all add: cv2_bitwise_and_def cv2_bitwise_or_def r_def s_def)
  have a1: "list_all (\<lambda>v. v = 0 \<or> v = 255) (data r)"
  proof -
    have "list_all (\<lambda>v. v = 0 \<or> v = (255::int)) (map2 (\<lambda>x y. x AND y) (data b1) (data b2))"
      by (rule list_all_map2 [OF v1 v2]) (rule and_binary)
    then show ?thesis by (simp add: r_def)
  qed
  have o1: "list_all (\<lambda>v. v = 0 \<or> v = 255) (data s)"
  proof -
    have "list_all (\<lambda>v. v = 0 \<or> v = (255::int)) (map2 (\<lambda>x y. x OR y) (data b1) (data b2))"
      by (rule list_all_map2 [OF v1 v2]) (rule or_binary)
    then show ?thesis by (simp add: s_def)
  qed
  have wr: "well_formed r" and ws: "well_formed s"
    using assms(1) len by (simp_all add: r_def s_def binary_buffer_def well_formed_def nchannels_def)
  have br: "binary_buffer r" and bs: "binary_buffer s"
    using wr ws a1 o1 assms(1) by (simp_all add: binary_buffer_def r_def s_def)
  have a0: "list_all (\<lambda>v. v = 0) (data b1) \<longrightarrow> list_all (\<lambda>v. v = 0) (data r)"
  proof
    assume z: "list_all (\<lambda>v. v = 0) (data b1)"
    have "list_all (\<lambda>v. v = (0::int)) (map2 (\<lambda>x y. x AND y) (data b1) (data b2))"
      by (rule list_all_map2 [OF z v2]) (rule and_zero)
    then show "list_all (\<lambda>v. v = 0) (data r)" by (simp add: r_def)
  qed
  have o255: "list_all (\<lambda>v. v = 255) (data b1) \<longrightarrow> list_all (\<lambda>v. v = 255) (data s)"
  proof
    assume z: "list_all (\<lambda>v. v = 255) (data b1)"
    have "list_all (\<lambda>v. v = (255::int)) (map2 (\<lambda>x y. x OR y) (data b1) (data b2))"
      by (rule list_all_map2 [OF z v2]) (rule or_white)
    then show "list_all (\<lambda>v. v = 255) (data s)" by (simp add: s_def)
  qed
  have a0': "list_all (\<lambda>v. v = 0) (data b2) \<longrightarrow> list_all (\<lambda>v. v = 0) (data r)"
  proof
    assume z: "list_all (\<lambda>v. v = 0) (data b2)"
    have "list_all (\<lambda>v. v = (0::int)) (map2 (\<lambda>x y. x AND y) (data b1) (data b2))"
      by (rule list_all_map2 [OF v1 z]) (rule and_zero_right)
    then show "list_all (\<lambda>v. v = 0) (data r)" by (simp add: r_def)
  qed
  have o255': "list_all (\<lambda>v. v = 255) (data b2) \<longrightarrow> list_all (\<lambda>v. v = 255) (data s)"
  proof
    assume z: "list_all (\<lambda>v. v = 255) (data b2)"
    have "list_all (\<lambda>v. v = (255::int)) (map2 (\<lambda>x y. x OR y) (data b1) (data b2))"
      by (rule list_all_map2 [OF v1 z]) (rule or_white_right)
    then show "list_all (\<lambda>v. v = 255) (data s)" by (simp add: s_def)
  qed
  have dims: "height r = height b1" "width r = width b1" "height s = height b1"
    "width s = width b1" by (simp_all add: r_def s_def)
  show ?thesis
    apply (rule exI [of _ r], rule exI [of _ s])
    apply (intro conjI)
    apply (rule ra so br bs dims a0 o255 a0' o255')+
    done
qed

lemma combine_result:
  assumes "well_formed a" "well_formed b"
    "0 < fst (reconciled_size env a b)" "0 < snd (reconciled_size env a b)"
  shows "\<exists>r s. logical_and env a b = Inr r \<and> union_operation env a b = Inr s \<and>
           binary_buffer r \<and> binary_buffer s \<and>
           height r = fst (reconciled_size env a b) \<and> width r = snd (reconciled_size env a b) \<and>
           height s = fst (reconciled_size env a b) \<and> width s = snd (reconciled_size env a b) \<and>
           (keeps_constant (resample env) 0 \<and>
              (list_all (\<lambda>v. v = 0) (data a) \<or> list_all (\<lambda>v. v = 0) (data b))
              \<longrightarrow> list_all (\<lambda>v. v = 0) (data r)) \<and>
           (keeps_constant (resample env) 255 \<and>
              (list_all (\<lambda>v. v = 255) (data a) \<or> list_all (\<lambda>v. v = 255) (data b))
              \<longrightarrow> list_all (\<lambda>v. v = 255) (data s))"
proof -
  from binarised_pair [OF assms]
  obtain b1 b2 where b: "logical_and env a b = cv2_bitwise_and b1 b2"
    "union_operation env a b = cv2_bitwise_or b1 b2" "binary_buffer b1" "binary_buffer b2"
    "height b1 = fst (reconciled_size env a b)" "width b1 = snd (reconciled_size env a b)"
    "height b2 = fst (reconciled_size env a b)" "width b2 = snd (reconciled_size env a b)"
    "keeps_constant (resample env) 0 \<and> list_all (\<lambda>v. v = 0) (data a) \<longrightarrow> list_all (\<lambda>v. v = 0) (data b1)"
    "keeps_constant (resample env) 255 \<and> list_all (\<lambda>v. v = 255) (data a)
       \<longrightarrow> list_all (\<lambda>v. v = 255) (data b1)"
    "keeps_constant (resample env) 0 \<and> list_all (\<lambda>v. v = 0) (data b) \<longrightarrow> list_all (\<lambda>v. v = 0) (data b2)"
    "keeps_constant (resample env) 255 \<and> list_all (\<lambda>v. v = 255) (data b)
       \<longrightarrow> list_all (\<lambda>v. v = 255) (data b2)" by blast
  have "height b1 = height b2" "width b1 = width b2" using b(5-8) by simp_all
  from bitwise_binary [OF b(3,4) this]
  obtain r s where rs: "cv2_bitwise_and b1 b2 = Inr r" "cv2_bitwise_or b1 b2 = Inr s"
    "binary_buffer r" "binary_buffer s" "height r = height b1" "width r = width b1"
    "height s = height b1" "width s = width b1"
    "list_all (\<lambda>v. v = 0) (data b1) \<longrightarrow> list_all (\<lambda>v. v = 0) (data r)"
    "list_all (\<lambda>v. v = 255) (data b1) \<longrightarrow> list_all (\<lambda>v. v = 255) (data s)"
    "list_all (\<lambda>v. v = 0) (data b2) \<longrightarrow> list_all (\<lambda>v. v = 0) (data r)"
    "list_all (\<lambda>v. v = 255) (data b2) \<longrightarrow> list_all (\<lambda>v. v = 255) (data s)" by blast
  have z: "keeps_constant (resample env) 0 \<and>
             (list_all (\<lambda>v. v = 0) (data a) \<or> list_all (\<lambda>v. v = 0) (data b))
             \<longrightarrow> list_all (\<lambda>v. v = 0) (data r)"
    using b(9,11) rs(9,11) by blast
  have w: "keeps_constant (resample env) 255 \<and>
             (list_all (\<lambda>v. v = 255) (data a) \<or> list_all (\<lambda>v. v = 255) (data b))
             \<longrightarrow> list_all (\<lambda>v. v = 255) (data s)"
    using b(10,12) rs(10,12) by blast
  have la: "logical_and env a b = Inr r" and un: "union_operation env a b = Inr s"
    using b(1,2) rs(1,2) by simp_all
  have dims: "height r = fst (reconciled_size env a b)" "width r = snd (reconciled_size env a b)"
    "height s = fst (reconciled_size env a b)" "width s = snd (reconciled_size env a b)"
    using rs(5-8) b(5,6) by simp_all
  show ?thesis
    apply (rule exI [of _ r], rule exI [of _ s])
    apply (intro conjI)
    apply (rule la un rs(3,4) dims z w)+
    done
qed

lemma nth_bgr2gray:
  "p < length xs div 3 \<Longrightarrow>
   bgr2gray xs ! p = luma (xs ! (3 * p)) (xs ! (3 * p + 1)) (xs ! (3 * p + 2))"
proof (induction xs arbitrary: p rule: bgr2gray.induct)
  case (1 b g r rest)
  show ?case
  proof (cases p)
    case 0
    then show ?thesis by simp
  next
    case (Suc q)
    with "1.prems" have "q < length rest div 3" by simp
    from "1.IH" [OF this] Suc show ?thesis by simp
  qed
qed simp_all

lemma luma_weights:
  assumes "0 \<le> b" "b \<le> 255" "0 \<le> g" "g \<le> 255" "0 \<le> r" "r \<le> 255"
  shows "\<bar>1000 * luma b g r - (114 * b + 587 * g + 299 * r)\<bar> < 1000"
proof -
  define s where "s = b * 3735 + g * 19235 + r * 9798 + 16384"
  have "luma b g r = s div 32768" by (simp add: luma_def s_def)
  moreover have "32768 * (s div 32768) \<le> s" "s < 32768 * (s div 32768) + 32768"
    by (simp_all add: div_mult_mod_eq)
  ultimately show ?thesis using assms unfolding s_def by linarith
qed

section \<open>The pipeline on pixel buffers\<close>

lemma valid_buffer_well_formed: "valid_buffer img \<Longrightarrow> well_formed img"
  by (simp add: valid_buffer_def)

lemma combine_returns_iff:
  assumes "well_formed a" "well_formed b"
  shows "logical_and env a b = Inr r \<Longrightarrow>
           0 < fst (reconciled_size env a b) \<and> 0 < snd (reconciled_size env a b)"
    and "union_operation env a b = Inr s \<Longrightarrow>
           0 < fst (reconciled_size env a b) \<and> 0 < snd (reconciled_size env a b)"
proof -
  have fails: "logical_and env a b = Inl (CvError Resize) \<and> union_operation env a b = Inl (CvError Resize)"
    if "\<not> (0 < fst (reconciled_size env a b) \<and> 0 < snd (reconciled_size env a b))"
  proof -
    from that have "fst (reconciled_size env a b) = 0 \<or> snd (reconciled_size env a b) = 0" by auto
    from combine_fails [OF assms this] show ?thesis .
  qed
  show "logical_and env a b = Inr r \<Longrightarrow>
           0 < fst (reconciled_size env a b) \<and> 0 < snd (reconciled_size env a b)"
    using fails by (cases "0 < fst (reconciled_size env a b) \<and> 0 < snd (reconciled_size env a b)") simp_all
  show "union_operation env a b = Inr s \<Longrightarrow>
           0 < fst (reconciled_size env a b) \<and> 0 < snd (reconciled_size env a b)"
    using fails by (cases "0 < fst (reconciled_size env a b) \<and> 0 < snd (reconciled_size env a b)") simp_all
qed

lemma map2_same: "(\<And>x. x \<in> set xs \<Longrightarrow> f x x = x) \<Longrightarrow> map2 f xs xs = xs"
  by (induction xs) simp_all

lemma map2_commute: "(\<And>x y. f x y = f y x) \<Longrightarrow> map2 f xs ys = map2 f ys xs"
proof (induction xs arbitrary: ys)
  case Nil
  then show ?case by simp
next
  case (Cons x xs)
  then show ?case by (cases ys) simp_all
qed

lemma bitwise_commute:
  assumes "binary_buffer b1" "binary_buffer b2" "height b1 = height b2" "width b1 = width b2"
  shows "cv2_bitwise_and b1 b2 = cv2_bitwise_and b2 b1"
    and "cv2_bitwise_or b1 b2 = cv2_bitwise_or b2 b1"
proof -
  have lay: "same_layout b1 b2" "same_layout b2 b1"
    using assms by (simp_all add: same_layout_def binary_buffer_def well_formed_def)
  have a: "map2 (\<lambda>x y. x AND y) (data b1) (data b2) = map2 (\<lambda>x y. x AND y) (data b2) (data b1)"
    by (rule map2_commute) (simp add: and.commute)
  have o: "map2 (\<lambda>x y. x OR y) (data b1) (data b2) = map2 (\<lambda>x y. x OR y) (data b2) (data b1)"
    by (rule map2_commute) (simp add: or.commute)
  have eq: "b1\<lparr>data := d\<rparr> = b2\<lparr>data := d\<rparr>" for d
    using lay(1) by (intro ndarray.equality) (simp_all add: same_layout_def)
  show "cv2_bitwise_and b1 b2 = cv2_bitwise_and b2 b1"
    using lay a eq by (simp add: cv2_bitwise_and_def)
  show "cv2_bitwise_or b1 b2 = cv2_bitwise_or b2 b1"
    using lay o eq by (simp add: cv2_bitwise_or_def)
qed

lemma reconciled_size_commute: "reconciled_size env b a = reconciled_size env a b"
  by (simp add: reconciled_size_def target_size_def min.commute)

lemma constant_list: "list_all (\<lambda>v. v = c) xs \<Longrightarrow> xs = replicate (length xs) c"
  by (induction xs) simp_all

lemma absorbing_law:
  assumes "well_formed a" "well_formed b"
    "0 < fst (reconciled_size env a b)" "0 < snd (reconciled_size env a b)"
  shows "keeps_constant (resample env) 0 \<Longrightarrow>
           list_all (\<lambda>v. v = 0) (data a) \<or> list_all (\<lambda>v. v = 0) (data b) \<Longrightarrow>
           logical_and env a b =
             Inr \<lparr>height = fst (reconciled_size env a b), width = snd (reconciled_size env a b),
                  channels = None, dtype = UInt8,
                  data = replicate (fst (reconciled_size env a b) * snd (reconciled_size env a b)) 0\<rparr>"
    and "keeps_constant (resample env) 255 \<Longrightarrow>
           list_all (\<lambda>v. v = 255) (data a) \<or> list_all (\<lambda>v. v = 255) (data b) \<Longrightarrow>
           union_operation env a b =
             Inr \<lparr>height = fst (reconciled_size env a b), width = snd (reconciled_size env a b),
                  channels = None, dtype = UInt8,
                  data = replicate (fst (reconciled_size env a b) * snd (reconciled_size env a b)) 255\<rparr>"
proof -
  from combine_result [OF assms]
  obtain r s where rs: "logical_and env a b = Inr r" "union_operation env a b = Inr s"
    "binary_buffer r" "binary_buffer s"
    "height r = fst (reconciled_size env a b)" "width r = snd (reconciled_size env a b)"
    "height s = fst (reconciled_size env a b)" "width s = snd (reconciled_size env a b)"
    "keeps_constant (resample env) 0 \<and>
       (list_all (\<lambda>v. v = 0) (data a) \<or> list_all (\<lambda>v. v = 0) (data b))
       \<longrightarrow> list_all (\<lambda>v. v = 0) (data r)"
    "keeps_constant (resample env) 255 \<and>
       (list_all (\<lambda>v. v = 255) (data a) \<or> list_all (\<lambda>v. v = 255) (data b))
       \<longrightarrow> list_all (\<lambda>v. v = 255) (data s)" by blast
  have shape: "channels x = None \<and> dtype x = UInt8 \<and> length (data x) = height x * width x"
    if "binary_buffer x" for x
    using that by (simp add: binary_buffer_def well_formed_def nchannels_def)
  show "logical_and env a b =
             Inr \<lparr>height = fst (reconciled_size env a b), width = snd (reconciled_size env a b),
                  channels = None, dtype = UInt8,
                  data = replicate (fst (reconciled_size env a b) * snd (reconciled_size env a b)) 0\<rparr>"
    if "keeps_constant (resample env) 0"
      "list_all (\<lambda>v. v = 0) (data a) \<or> list_all (\<lambda>v. v = 0) (data b)"
  proof -
    from that rs(9) have "list_all (\<lambda>v. v = 0) (data r)" by blast
    from constant_list [OF this] shape [OF rs(3)] rs(5,6)
    have "data r = replicate (fst (reconciled_size env a b) * snd (reconciled_size env a b)) 0"
      by simp
    with shape [OF rs(3)] rs(5,6) have "r = \<lparr>height = fst (reconciled_size env a b),
        width = snd (reconciled_size env a b), channels = None, dtype = UInt8,
        data = replicate (fst (reconciled_size env a b) * snd (reconciled_size env a b)) 0\<rparr>"
      by (intro ndarray.equality) simp_all
    with rs(1) show ?thesis by simp
  qed
  show "union_operation env a b =
             Inr \<lparr>height = fst (reconciled_size env a b), width = snd (reconciled_size env a b),
                  channels = None, dtype = UInt8,
                  data = replicate (fst (reconciled_size env a b) * snd (reconciled_size env a b)) 255\<rparr>"
    if "keeps_constant (resample env) 255"
      "list_all (\<lambda>v. v = 255) (data a) \<or> list_all (\<lambda>v. v = 255) (data b)"
  proof -
    from that rs(10) have "list_all (\<lambda>v. v = 255) (data s)" by blast
    from constant_list [OF this] shape [OF rs(4)] rs(7,8)
    have "data s = replicate (fst (reconciled_size env a b) * snd (reconciled_size env a b)) 255"
      by simp
    with shape [OF rs(4)] rs(7,8) have "s = \<lparr>height = fst (reconciled_size env a b),
        width = snd (reconciled_size env a b), channels = None, dtype = UInt8,
        data = replicate (fst (reconciled_size env a b) * snd (reconciled_size env a b)) 255\<rparr>"
      by (intro ndarray.equality) simp_all
    with rs(2) show ?thesis by simp
  qed
qed

section \<open>The size clamp under rounding\<close>

lemma rounding_bounds:
  assumes "rounds_to_double rnd" "0 < x"
  shows "0 < rnd x" "rnd x \<le> x * (1 + 1 / 2 ^ 53)"
proof -
  from assms have e: "\<bar>rnd x - x\<bar> \<le> x / 2 ^ 53" by (simp add: rounds_to_double_def)
  have "x / 2 ^ 53 < x" using assms(2) by (simp add: field_simps)
  with e show "0 < rnd x" by linarith
  from e have "rnd x - x \<le> x / 2 ^ 53" by linarith
  then have "rnd x \<le> x + x / 2 ^ 53" by linarith
  then show "rnd x \<le> x * (1 + 1 / 2 ^ 53)" by (simp add: distrib_left)
qed


lemma unit_roundoff_cube:
  "(2048::rat) * ((1 + 1 / 2 ^ 53) * ((1 + 1 / 2 ^ 53) * (1 + 1 / 2 ^ 53))) < 2049"
  "(2048 / 2049 :: rat) * ((1 + 1 / 2 ^ 53) * ((1 + 1 / 2 ^ 53) * (1 + 1 / 2 ^ 53))) \<le> 1"
  by simp_all

lemma scaled_product_le:
  assumes R: "rounds_to_double rnd" and n: "0 < (n::nat)" and s: "0 < s" "s \<le> c * (1 + 1 / 2 ^ 53)"
    and c: "0 \<le> c"
  shows "rnd (rnd (rat_of_nat n) * s)
           \<le> rat_of_nat n * c * ((1 + 1 / 2 ^ 53) * ((1 + 1 / 2 ^ 53) * (1 + 1 / 2 ^ 53)))"
proof -
  define u :: rat where "u = 1 + 1 / 2 ^ 53"
  have u: "0 < u" by (simp add: u_def)
  have npos: "0 < rat_of_nat n" using n by simp
  note f = rounding_bounds [OF R npos, folded u_def]
  have p: "0 < rnd (rat_of_nat n) * s" using f(1) s(1) by simp
  have "rnd (rat_of_nat n) * s \<le> (rat_of_nat n * u) * (c * u)"
    using f s c u by (intro mult_mono) (simp_all add: u_def)
  moreover have "rnd (rnd (rat_of_nat n) * s) \<le> rnd (rat_of_nat n) * s * u"
    using rounding_bounds(2) [OF R p] by (simp add: u_def)
  ultimately have "rnd (rnd (rat_of_nat n) * s) \<le> (rat_of_nat n * u) * (c * u) * u"
    using u by (meson mult_right_mono order_trans less_imp_le)
  then show ?thesis by (simp add: u_def mult_ac)
qed

lemma nat_floor_le: "x \<le> rat_of_nat n \<Longrightarrow> nat \<lfloor>x\<rfloor> \<le> n"
proof -
  assume "x \<le> rat_of_nat n"
  then have "\<lfloor>x\<rfloor> \<le> \<lfloor>rat_of_nat n\<rfloor>" by (rule floor_mono)
  then show ?thesis by simp
qed

lemma scale_positive:
  assumes "rounds_to_double rnd" "0 < (h::nat)" "0 < (w::nat)"
  shows "0 < min (rnd (2048 / rat_of_nat h)) (rnd (2048 / rat_of_nat w))"
  using rounding_bounds(1) [OF assms(1), of "2048 / rat_of_nat h"]
    rounding_bounds(1) [OF assms(1), of "2048 / rat_of_nat w"] assms(2,3)
  by simp

lemma scale_le_side:
  assumes "rounds_to_double rnd" "0 < (n::nat)"
  shows "rnd (2048 / rat_of_nat n) \<le> 2048 / rat_of_nat n * (1 + 1 / 2 ^ 53)"
  using rounding_bounds(2) [OF assms(1), of "2048 / rat_of_nat n"] assms(2) by simp

lemma scale_below_one:
  assumes "rounds_to_double rnd" "2048 < (n::nat)"
  shows "rnd (2048 / rat_of_nat n) \<le> 2048 / 2049 * (1 + 1 / 2 ^ 53)"
proof -
  have "2049 \<le> n" using assms(2) by simp
  then have "(2049::rat) \<le> rat_of_nat n" by (metis of_nat_le_iff of_nat_numeral)
  then have "2048 / rat_of_nat n \<le> 2048 / (2049::rat)" by (intro divide_left_mono) simp_all
  then have "2048 / rat_of_nat n * (1 + 1 / 2 ^ 53) \<le> 2048 / 2049 * (1 + 1 / 2 ^ 53 :: rat)"
    by (intro mult_right_mono) simp_all
  with scale_le_side [OF assms(1), of n] assms(2) show ?thesis by simp
qed

lemma scaled_side_le_ceiling:
  assumes R: "rounds_to_double rnd" and n: "0 < (n::nat)" and s: "0 < s"
    "s \<le> rnd (2048 / rat_of_nat n)"
  shows "nat \<lfloor>rnd (rnd (rat_of_nat n) * s)\<rfloor> \<le> 2048"
proof -
  have s': "s \<le> 2048 / rat_of_nat n * (1 + 1 / 2 ^ 53)"
    using s(2) scale_le_side [OF R n] by simp
  have "rnd (rnd (rat_of_nat n) * s)
      \<le> rat_of_nat n * (2048 / rat_of_nat n)
          * ((1 + 1 / 2 ^ 53) * ((1 + 1 / 2 ^ 53) * (1 + 1 / 2 ^ 53)))"
    by (rule scaled_product_le [OF R n s(1) s']) simp
  also have "rat_of_nat n * (2048 / rat_of_nat n) = 2048" using n by simp
  finally have "rnd (rnd (rat_of_nat n) * s) < 2049"
    using unit_roundoff_cube(1) by simp
  then have "\<lfloor>rnd (rnd (rat_of_nat n) * s)\<rfloor> \<le> 2048" by (simp add: floor_le_iff)
  then show ?thesis by (simp only: nat_le_iff of_nat_numeral)
qed

lemma scaled_side_le_side:
  assumes R: "rounds_to_double rnd" and n: "0 < (n::nat)" and s: "0 < s"
    "s \<le> 2048 / 2049 * (1 + 1 / 2 ^ 53)"
  shows "nat \<lfloor>rnd (rnd (rat_of_nat n) * s)\<rfloor> \<le> n"
proof -
  have "rnd (rnd (rat_of_nat n) * s)
      \<le> rat_of_nat n * (2048 / 2049)
          * ((1 + 1 / 2 ^ 53) * ((1 + 1 / 2 ^ 53) * (1 + 1 / 2 ^ 53)))"
    by (rule scaled_product_le [OF R n s]) simp
  also have "\<dots> = rat_of_nat n
      * (2048 / 2049 * ((1 + 1 / 2 ^ 53) * ((1 + 1 / 2 ^ 53) * (1 + 1 / 2 ^ 53))))"
    by (simp only: mult.assoc)
  also have "\<dots> \<le> rat_of_nat n * 1"
    by (intro mult_left_mono unit_roundoff_cube(2)) simp
  finally have "rnd (rnd (rat_of_nat n) * s) \<le> rat_of_nat n" by simp
  then show ?thesis by (rule nat_floor_le)
qed

lemma clamped_size_scaled:
  assumes "h > max_dimension \<or> w > max_dimension"
  shows "clamped_size env (h, w) =
    (nat \<lfloor>fround env (fround env (rat_of_nat h)
            * min (fround env (2048 / rat_of_nat h)) (fround env (2048 / rat_of_nat w)))\<rfloor>,
     nat \<lfloor>fround env (fround env (rat_of_nat w)
            * min (fround env (2048 / rat_of_nat h)) (fround env (2048 / rat_of_nat w)))\<rfloor>)"
  using assms by (simp add: clamped_size_def Let_def max_dimension_def)

lemma clamped_size_le:
  assumes R: "rounds_to_double (fround env)" and pos: "0 < h" "0 < w"
  shows "fst (clamped_size env (h, w)) \<le> h \<and> fst (clamped_size env (h, w)) \<le> 2048 \<and>
         snd (clamped_size env (h, w)) \<le> w \<and> snd (clamped_size env (h, w)) \<le> 2048"
proof (cases "h > max_dimension \<or> w > max_dimension")
  case False
  then show ?thesis by (simp add: clamped_size_def max_dimension_def)
next
  case True
  define s where "s = min (fround env (2048 / rat_of_nat h)) (fround env (2048 / rat_of_nat w))"
  have s0: "0 < s" unfolding s_def by (rule scale_positive [OF R pos])
  have sh: "s \<le> fround env (2048 / rat_of_nat h)" and sw: "s \<le> fround env (2048 / rat_of_nat w)"
    by (simp_all add: s_def)
  have s1: "s \<le> 2048 / 2049 * (1 + 1 / 2 ^ 53)"
  proof (cases "2048 < h")
    case True
    from scale_below_one [OF R this] sh show ?thesis by simp
  next
    case False
    with \<open>h > max_dimension \<or> w > max_dimension\<close> have "2048 < w"
      by (simp add: max_dimension_def)
    from scale_below_one [OF R this] sw show ?thesis by simp
  qed
  note cs = clamped_size_scaled [OF True, of env, folded s_def]
  show ?thesis unfolding cs fst_conv snd_conv
    using scaled_side_le_side [OF R pos(1) s0 s1] scaled_side_le_ceiling [OF R pos(1) s0 sh]
      scaled_side_le_side [OF R pos(2) s0 s1] scaled_side_le_ceiling [OF R pos(2) s0 sw]
    by simp
qed

lemma reconciled_size_le:
  assumes "rounds_to_double (fround env)" "well_formed a" "well_formed b"
  shows "fst (reconciled_size env a b) \<le> min (height a) (height b) \<and>
         fst (reconciled_size env a b) \<le> 2048 \<and>
         snd (reconciled_size env a b) \<le> min (width a) (width b) \<and>
         snd (reconciled_size env a b) \<le> 2048"
proof -
  have "0 < min (height a) (height b)" "0 < min (width a) (width b)"
    using assms(2,3) by (simp_all add: well_formed_def)
  from clamped_size_le [OF assms(1) this] show ?thesis
    by (simp add: reconciled_size_def target_size_def)
qed







section \<open>What a run of the pipeline tells about its inputs\<close>

lemma cv2_resize_Inr:
  assumes "cv2_resize env src (w, h) = Inr r"
  shows "\<not> is_empty src" "0 < w" "0 < h" "height r = h" "width r = w"
    "channels r = (if channels src = Some 1 then None else channels src)"
  using assms by (auto simp: cv2_resize_def split: if_splits)

lemma cv2_resize_Inl: "cv2_resize env src d = Inl e \<Longrightarrow> e = CvError Resize"
  by (cases d) (auto simp: cv2_resize_def split: if_splits)

lemma resize_to_match_Inr:
  assumes "resize_to_match env a b = Inr (m1, m2)"
  shows "(m1 = a \<and> m2 = b \<and> height a = height b \<and> width a = width b) \<or>
         (\<not> is_empty a \<and> \<not> is_empty b \<and> 0 < height m1 \<and> 0 < width m1 \<and>
          0 < height m2 \<and> 0 < width m2 \<and>
          channels m1 = (if channels a = Some 1 then None else channels a) \<and>
          channels m2 = (if channels b = Some 1 then None else channels b))"
    and "height m2 = height m1" "width m2 = width m1"
proof -
  have "((m1 = a \<and> m2 = b \<and> height a = height b \<and> width a = width b) \<or>
         (\<not> is_empty a \<and> \<not> is_empty b \<and> 0 < height m1 \<and> 0 < width m1 \<and>
          0 < height m2 \<and> 0 < width m2 \<and>
          channels m1 = (if channels a = Some 1 then None else channels a) \<and>
          channels m2 = (if channels b = Some 1 then None else channels b))) \<and>
        height m2 = height m1 \<and> width m2 = width m1"
  proof (cases "height a = height b \<and> width a = width b")
    case True
    with assms show ?thesis by (simp add: resize_to_match_def)
  next
    case False
    with assms
    have r: "cv2_resize env a (min (width a) (width b), min (height a) (height b)) = Inr m1"
      "cv2_resize env b (min (width a) (width b), min (height a) (height b)) = Inr m2"
      by (auto simp: resize_to_match_def Let_def split: sum.splits)
    from cv2_resize_Inr [OF r(1)] cv2_resize_Inr [OF r(2)] show ?thesis by simp
  qed
  then show "(m1 = a \<and> m2 = b \<and> height a = height b \<and> width a = width b) \<or>
         (\<not> is_empty a \<and> \<not> is_empty b \<and> 0 < height m1 \<and> 0 < width m1 \<and>
          0 < height m2 \<and> 0 < width m2 \<and>
          channels m1 = (if channels a = Some 1 then None else channels a) \<and>
          channels m2 = (if channels b = Some 1 then None else channels b))"
    and "height m2 = height m1" "width m2 = width m1" by blast+
qed

lemma resize_to_match_Inl: "resize_to_match env a b = Inl e \<Longrightarrow> e = CvError Resize"
  by (auto simp: resize_to_match_def Let_def split: if_splits sum.splits dest: cv2_resize_Inl)

lemma resize_if_needed_Inr:
  assumes "resize_if_needed env m = Inr r"
  shows "(r = m \<and> height m \<le> 2048 \<and> width m \<le> 2048) \<or>
         (\<not> is_empty m \<and> 0 < height r \<and> 0 < width r \<and> dtype r = dtype m \<and>
          channels r = (if channels m = Some 1 then None else channels m))"
    and "(height r, width r) = clamped_size env (height m, width m)"
proof -
  have "((r = m \<and> height m \<le> 2048 \<and> width m \<le> 2048) \<or>
         (\<not> is_empty m \<and> 0 < height r \<and> 0 < width r \<and> dtype r = dtype m \<and>
          channels r = (if channels m = Some 1 then None else channels m))) \<and>
        (height r, width r) = clamped_size env (height m, width m)"
  proof (cases "height m > max_dimension \<or> width m > max_dimension")
    case False
    with assms have "r = m" by (simp add: resize_if_needed_def)
    with False show ?thesis by (simp add: clamped_size_small max_dimension_def)
  next
    case True
    note cs = clamped_size_scaled [OF True, of env]
    from assms True have c: "cv2_resize env m (snd (clamped_size env (height m, width m)),
        fst (clamped_size env (height m, width m))) = Inr r"
      unfolding cs by (simp add: resize_if_needed_def Let_def max_dimension_def split: if_splits)
    from cv2_resize_Inr [OF c] cv2_resize_dtype [OF c] show ?thesis
      by (simp add: prod_eq_iff)
  qed
  then show "(r = m \<and> height m \<le> 2048 \<and> width m \<le> 2048) \<or>
         (\<not> is_empty m \<and> 0 < height r \<and> 0 < width r \<and> dtype r = dtype m \<and>
          channels r = (if channels m = Some 1 then None else channels m))"
    and "(height r, width r) = clamped_size env (height m, width m)" by blast+
qed

lemma resize_if_needed_Inl:
  assumes "resize_if_needed env m = Inl e"
  shows "e = CvError Resize \<or> (e = ZeroDivisionError \<and> (height m = 0 \<or> width m = 0))"
proof (cases "height m = 0 \<or> width m = 0")
  case True
  with assms show ?thesis
    by (auto simp: resize_if_needed_def Let_def split: if_splits)
next
  case False
  with assms have "\<exists>d. cv2_resize env m d = Inl e"
    by (auto simp: resize_if_needed_def Let_def split: if_splits)
  then show ?thesis using cv2_resize_Inl by blast
qed


lemma optimize_memory_usage_Inr:
  assumes "optimize_memory_usage env m = Inr r"
  shows "dtype r = UInt8"
    "(height r = height m \<and> width r = width m \<and> channels r = channels m \<and>
      height m \<le> 2048 \<and> width m \<le> 2048) \<or>
     (\<not> is_empty m \<and> 0 < height r \<and> 0 < width r \<and>
      channels r = (if channels m = Some 1 then None else channels m))"
    "(height r, width r) = clamped_size env (height m, width m)"
proof -
  from assms obtain r' where r': "resize_if_needed env m = Inr r'"
    "r = (if dtype r' \<noteq> UInt8 then astype_uint8 r' else r')"
    by (auto simp: optimize_memory_usage_def split: sum.splits)
  from r'(2) show "dtype r = UInt8" by (simp add: astype_uint8_def)
  have same: "height r = height r'" "width r = width r'" "channels r = channels r'"
    using r'(2) by (simp_all add: astype_uint8_def)
  from resize_if_needed_Inr(1) [OF r'(1)] same
  show "(height r = height m \<and> width r = width m \<and> channels r = channels m \<and>
      height m \<le> 2048 \<and> width m \<le> 2048) \<or>
     (\<not> is_empty m \<and> 0 < height r \<and> 0 < width r \<and>
      channels r = (if channels m = Some 1 then None else channels m))"
    by auto
  from resize_if_needed_Inr(2) [OF r'(1)] same
  show "(height r, width r) = clamped_size env (height m, width m)" by simp
qed

lemma optimize_memory_usage_Inl:
  "optimize_memory_usage env m = Inl e \<Longrightarrow>
     e = CvError Resize \<or> (e = ZeroDivisionError \<and> (height m = 0 \<or> width m = 0))"
  by (auto simp: optimize_memory_usage_def split: sum.splits dest: resize_if_needed_Inl)

lemma convert_to_binary_Inr:
  assumes "convert_to_binary m = Inr r"
  shows "height r = height m" "width r = width m" "channels r = None"
    "channels m = None \<or> (\<not> is_empty m \<and> (channels m = Some 3 \<or> channels m = Some 4))"
    "dtype m = UInt8 \<Longrightarrow> dtype r = UInt8"
  using assms
  by (auto simp: convert_to_binary_def ndim_def cv2_cvtColor_BGR2GRAY_def cv2_threshold_def
      split: if_splits option.splits sum.splits)

lemma convert_to_binary_Inl: "convert_to_binary m = Inl e \<Longrightarrow> e = CvError CvtColor"
  by (auto simp: convert_to_binary_def cv2_cvtColor_BGR2GRAY_def
      split: if_splits option.splits sum.splits)



lemma logical_and_binarised:
  "logical_and env a b =
     (case binarised env a b of Inl e \<Rightarrow> Inl e | Inr (b1, b2) \<Rightarrow> cv2_bitwise_and b1 b2)"
  by (simp add: logical_and_def binarised_def split: sum.splits prod.splits)

lemma union_operation_binarised:
  "union_operation env a b =
     (case binarised env a b of Inl e \<Rightarrow> Inl e | Inr (b1, b2) \<Rightarrow> cv2_bitwise_or b1 b2)"
  by (simp add: union_operation_def binarised_def split: sum.splits prod.splits)

lemma binarised_Inr:
  assumes "binarised env a b = Inr (b1, b2)"
  shows "\<exists>m1 m2 o1 o2. resize_to_match env a b = Inr (m1, m2) \<and>
           optimize_memory_usage env m1 = Inr o1 \<and> optimize_memory_usage env m2 = Inr o2 \<and>
           convert_to_binary o1 = Inr b1 \<and> convert_to_binary o2 = Inr b2"
  using assms by (auto simp: binarised_def split: sum.splits prod.splits)


lemma traced_positive:
  assumes "optimize_memory_usage env m = Inr p" "convert_to_binary p = Inr bn"
    "0 < height bn" "0 < width bn"
  shows "\<not> is_empty m \<and> channels m \<in> {None, Some 1, Some 3, Some 4}"
proof -
  note c = convert_to_binary_Inr [OF assms(2)]
  have pos: "0 < height p" "0 < width p" using c(1,2) assms(3,4) by simp_all
  have ch: "channels p = None \<or> channels p = Some 3 \<or> channels p = Some 4"
    using c(4) by blast
  from optimize_memory_usage_Inr(2) [OF assms(1)] show ?thesis
  proof
    assume "height p = height m \<and> width p = width m \<and> channels p = channels m \<and>
      height m \<le> 2048 \<and> width m \<le> 2048"
    with pos ch show ?thesis by (auto simp: is_empty_def)
  next
    assume "\<not> is_empty m \<and> 0 < height p \<and> 0 < width p \<and>
      channels p = (if channels m = Some 1 then None else channels m)"
    with ch show ?thesis by (auto split: if_splits)
  qed
qed

lemma traced_empty:
  assumes "optimize_memory_usage env m = Inr p" "convert_to_binary p = Inr bn"
    "height bn = 0 \<or> width bn = 0"
  shows "(height m = 0 \<or> width m = 0) \<and> channels m = None \<and>
         height m \<le> 2048 \<and> width m \<le> 2048"
proof -
  note c = convert_to_binary_Inr [OF assms(2)]
  have z: "height p = 0 \<or> width p = 0" using c(1,2) assms(3) by simp
  then have "is_empty p" by (auto simp: is_empty_def)
  with c(4) have n: "channels p = None" by blast
  from optimize_memory_usage_Inr(2) [OF assms(1)] z n show ?thesis by auto
qed

lemma matched_supported:
  assumes "resize_to_match env a b = Inr (m1, m2)"
    "\<not> is_empty m1 \<and> channels m1 \<in> {None, Some 1, Some 3, Some 4}"
    "\<not> is_empty m2 \<and> channels m2 \<in> {None, Some 1, Some 3, Some 4}"
  shows "\<not> is_empty a \<and> channels a \<in> {None, Some 1, Some 3, Some 4} \<and>
         \<not> is_empty b \<and> channels b \<in> {None, Some 1, Some 3, Some 4}"
  using resize_to_match_Inr(1) [OF assms(1)] assms(2,3) by (auto split: if_splits)

lemma matched_empty:
  assumes "resize_to_match env a b = Inr (m1, m2)"
    "height m1 = 0 \<or> width m1 = 0 \<or> height m2 = 0 \<or> width m2 = 0"
  shows "m1 = a" "m2 = b" "height b = height a" "width b = width a" "is_empty a" "is_empty b"
  using resize_to_match_Inr(1) [OF assms(1)] assms(2) by (auto simp: is_empty_def)


lemma binarised_Inl:
  assumes "binarised env a b = Inl e"
  shows "e = CvError Resize \<or> e = CvError CvtColor \<or>
         (e = ZeroDivisionError \<and> is_empty a \<and> is_empty b)"
proof (cases "resize_to_match env a b")
  case (Inl e')
  with assms resize_to_match_Inl [OF Inl] show ?thesis by (simp add: binarised_def)
next
  case (Inr mm)
  obtain m1 m2 where mm: "mm = (m1, m2)" by (cases mm)
  note rtm = Inr [unfolded mm]
  show ?thesis
  proof (cases "optimize_memory_usage env m1")
    case (Inl e1)
    with assms rtm have e: "e = e1" by (simp add: binarised_def)
    from optimize_memory_usage_Inl [OF Inl] show ?thesis
    proof
      assume "e1 = CvError Resize"
      with e show ?thesis by simp
    next
      assume z: "e1 = ZeroDivisionError \<and> (height m1 = 0 \<or> width m1 = 0)"
      then have "height m1 = 0 \<or> width m1 = 0 \<or> height m2 = 0 \<or> width m2 = 0" by auto
      from matched_empty(5,6) [OF rtm this] z e show ?thesis by simp
    qed
  next
    case o1: (Inr o1)
    show ?thesis
    proof (cases "optimize_memory_usage env m2")
      case (Inl e2)
      with assms rtm o1 have e: "e = e2" by (simp add: binarised_def)
      from optimize_memory_usage_Inl [OF Inl] show ?thesis
      proof
        assume "e2 = CvError Resize"
        with e show ?thesis by simp
      next
        assume z: "e2 = ZeroDivisionError \<and> (height m2 = 0 \<or> width m2 = 0)"
        then have "height m1 = 0 \<or> width m1 = 0 \<or> height m2 = 0 \<or> width m2 = 0" by auto
        from matched_empty(5,6) [OF rtm this] z e show ?thesis by simp
      qed
    next
      case o2: (Inr o2)
      show ?thesis
      proof (cases "convert_to_binary o1")
        case (Inl e3)
        with assms rtm o1 o2 have "e = e3" by (simp add: binarised_def)
        with convert_to_binary_Inl [OF Inl] show ?thesis by simp
      next
        case b1: (Inr b1)
        show ?thesis
        proof (cases "convert_to_binary o2")
          case (Inl e4)
          with assms rtm o1 o2 b1 have "e = e4" by (simp add: binarised_def)
          with convert_to_binary_Inl [OF Inl] show ?thesis by simp
        next
          case (Inr b2)
          with assms rtm o1 o2 b1 show ?thesis by (simp add: binarised_def)
        qed
      qed
    qed
  qed
qed


lemma binarised_same_layout:
  assumes "binarised env a b = Inr (b1, b2)"
  shows "same_layout b1 b2"
proof -
  from binarised_Inr [OF assms]
  obtain m1 m2 o1 o2 where st: "resize_to_match env a b = Inr (m1, m2)"
    "optimize_memory_usage env m1 = Inr o1" "optimize_memory_usage env m2 = Inr o2"
    "convert_to_binary o1 = Inr b1" "convert_to_binary o2 = Inr b2" by blast
  note m = resize_to_match_Inr(2,3) [OF st(1)]
  note p1 = optimize_memory_usage_Inr(1,3) [OF st(2)]
  note p2 = optimize_memory_usage_Inr(1,3) [OF st(3)]
  note c1 = convert_to_binary_Inr [OF st(4)]
  note c2 = convert_to_binary_Inr [OF st(5)]
  from p1(2) p2(2) m have "(height o1, width o1) = (height o2, width o2)" by simp
  then have d: "height o1 = height o2" "width o1 = width o2" by simp_all
  show ?thesis
    unfolding same_layout_def
    using d c1(1,2,3) c2(1,2,3) c1(5) [OF p1(1)] c2(5) [OF p2(1)] by simp
qed

lemma binarised_unsupported:
  assumes "is_empty a \<or> is_empty b \<or> channels a \<notin> {None, Some 1, Some 3, Some 4} \<or>
           channels b \<notin> {None, Some 1, Some 3, Some 4}"
    and "binarised env a b = Inr (b1, b2)"
  shows "channels a = None \<and> (height a = 0 \<or> width a = 0) \<and>
         height b = height a \<and> width b = width a \<and> height a \<le> 2048 \<and> width a \<le> 2048"
proof -
  from binarised_Inr [OF assms(2)]
  obtain m1 m2 o1 o2 where st: "resize_to_match env a b = Inr (m1, m2)"
    "optimize_memory_usage env m1 = Inr o1" "optimize_memory_usage env m2 = Inr o2"
    "convert_to_binary o1 = Inr b1" "convert_to_binary o2 = Inr b2" by blast
  from binarised_same_layout [OF assms(2)]
  have d: "height b2 = height b1" "width b2 = width b1" by (simp_all add: same_layout_def)
  have z: "height b1 = 0 \<or> width b1 = 0"
  proof (rule ccontr)
    assume "\<not> (height b1 = 0 \<or> width b1 = 0)"
    then have p1: "0 < height b1" "0 < width b1" by simp_all
    then have p2: "0 < height b2" "0 < width b2" using d by simp_all
    from matched_supported [OF st(1) traced_positive [OF st(2,4) p1]
        traced_positive [OF st(3,5) p2]] assms(1)
    show False by blast
  qed
  note t = traced_empty [OF st(2,4) z]
  from t have "height m1 = 0 \<or> width m1 = 0 \<or> height m2 = 0 \<or> width m2 = 0" by auto
  note e = matched_empty [OF st(1) this]
  from t e(1,3,4) show ?thesis by simp
qed

section \<open>The pipeline on the example buffers\<close>

lemma map_first_sample:
  "map (first_sample src w h) xs =
     replicate (length xs) (if data src = [] then 0 else hd (data src))"
  by (induction xs) (simp_all add: first_sample_def)

lemma exact_env_simps:
  "resample exact_env = first_sample" "fround exact_env x = x"
  by (simp_all add: exact_env_def)

lemma rounds_to_double_exact_env: "rounds_to_double (fround exact_env)"
  by (simp add: rounds_to_double_def exact_env_def)

lemma keeps_constant_first_sample: "keeps_constant (resample exact_env) c"
  by (auto simp: keeps_constant_def first_sample_def list_all_iff exact_env_def)

lemma valid_examples:
  "valid_buffer white_4x4" "valid_buffer black_2x2" "valid_buffer gray_1x2"
  "valid_buffer bgr_1x2" "valid_buffer column_4096" "valid_buffer column_4097"
  "valid_buffer strip_4096x2" "valid_buffer band_8192x4" "valid_buffer white_column_4096"
  by (simp_all add: valid_buffer_def well_formed_def nchannels_def white_4x4_def black_2x2_def
      gray_1x2_def bgr_1x2_def column_4096_def column_4097_def strip_4096x2_def
      band_8192x4_def white_column_4096_def list_all_iff)

lemma scenario_and:
  "logical_and exact_env white_4x4 black_2x2 =
     Inr \<lparr>height = 2, width = 2, channels = None, dtype = UInt8, data = replicate 4 0\<rparr>"
  by (simp add: logical_and_def resize_to_match_def cv2_resize_def is_empty_def nchannels_def
      optimize_memory_usage_def resize_if_needed_def max_dimension_def convert_to_binary_def
      ndim_def cv2_threshold_def cv2_bitwise_and_def same_layout_def white_4x4_def
      black_2x2_def map_first_sample exact_env_simps)

lemma scenario_or:
  "union_operation exact_env white_4x4 black_2x2 =
     Inr \<lparr>height = 2, width = 2, channels = None, dtype = UInt8,
          data = replicate 4 255\<rparr>"
  by (simp add: union_operation_def resize_to_match_def cv2_resize_def is_empty_def nchannels_def
      optimize_memory_usage_def resize_if_needed_def max_dimension_def convert_to_binary_def
      ndim_def cv2_threshold_def cv2_bitwise_or_def same_layout_def white_4x4_def
      black_2x2_def map_first_sample exact_env_simps)

lemma clamp_example:
  "logical_and exact_env strip_4096x2 band_8192x4 =
     Inr \<lparr>height = 2048, width = 1, channels = None, dtype = UInt8,
          data = replicate 2048 0\<rparr>"
  "union_operation exact_env strip_4096x2 band_8192x4 =
     Inr \<lparr>height = 2048, width = 1, channels = None, dtype = UInt8,
          data = replicate 2048 255\<rparr>"
  by (simp_all add: logical_and_def union_operation_def resize_to_match_def cv2_resize_def
      is_empty_def nchannels_def
      optimize_memory_usage_def resize_if_needed_def max_dimension_def convert_to_binary_def
      ndim_def cv2_threshold_def cv2_bitwise_and_def cv2_bitwise_or_def same_layout_def
      strip_4096x2_def band_8192x4_def map_first_sample exact_env_simps)


lemma colour_example:
  "logical_and exact_env bgr_1x2 gray_1x2 =
     Inr \<lparr>height = 1, width = 2, channels = None, dtype = UInt8, data = [0, 0]\<rparr>"
  "union_operation exact_env bgr_1x2 gray_1x2 =
     Inr \<lparr>height = 1, width = 2, channels = None, dtype = UInt8, data = [255, 255]\<rparr>"
  by (simp_all add: logical_and_def union_operation_def resize_to_match_def
      is_empty_def nchannels_def cv2_cvtColor_BGR2GRAY_def luma_def
      optimize_memory_usage_def resize_if_needed_def max_dimension_def convert_to_binary_def
      ndim_def cv2_threshold_def cv2_bitwise_and_def cv2_bitwise_or_def same_layout_def
      bgr_1x2_def gray_1x2_def)

lemma thin_column_clamp:
  "height m = 4096 \<Longrightarrow> width m = 1 \<Longrightarrow>
     optimize_memory_usage exact_env m = Inl (CvError Resize)"
  by (simp add: optimize_memory_usage_def resize_if_needed_def max_dimension_def
      cv2_resize_def exact_env_simps)

lemma thin_column_examples:
  "logical_and exact_env column_4096 column_4097 = Inl (CvError Resize)"
  "union_operation exact_env column_4096 column_4097 = Inl (CvError Resize)"
  "logical_and exact_env column_4096 column_4096 = Inl (CvError Resize)"
  "union_operation exact_env white_column_4096 white_column_4096 = Inl (CvError Resize)"
proof -
  define mid where "mid = \<lparr>height = 4096, width = 1, channels = None, dtype = UInt8,
     data = replicate 4096 (0::int)\<rparr>"
  have m: "resize_to_match exact_env column_4096 column_4097 = Inr (mid, mid)"
    by (simp add: resize_to_match_def cv2_resize_def is_empty_def nchannels_def
        column_4096_def column_4097_def map_first_sample exact_env_simps mid_def)
  have o: "optimize_memory_usage exact_env mid = Inl (CvError Resize)"
    by (rule thin_column_clamp) (simp_all add: mid_def)
  show "logical_and exact_env column_4096 column_4097 = Inl (CvError Resize)"
    "union_operation exact_env column_4096 column_4097 = Inl (CvError Resize)"
    by (simp_all add: logical_and_def union_operation_def m o)
  have c: "optimize_memory_usage exact_env column_4096 = Inl (CvError Resize)"
    by (rule thin_column_clamp) (simp_all add: column_4096_def)
  have w: "optimize_memory_usage exact_env white_column_4096 = Inl (CvError Resize)"
    by (rule thin_column_clamp) (simp_all add: white_column_4096_def)
  show "logical_and exact_env column_4096 column_4096 = Inl (CvError Resize)"
    by (simp add: logical_and_def resize_to_match_def c)
  show "union_operation exact_env white_column_4096 white_column_4096 = Inl (CvError Resize)"
    by (simp add: union_operation_def resize_to_match_def w)
qed

lemma optimize_memory_usage_casts:
  "dtype img \<noteq> UInt8 \<Longrightarrow>
   optimize_memory_usage env img =
     (case resize_if_needed env img of
        Inl e \<Rightarrow> Inl e
      | Inr m \<Rightarrow> Inr (m\<lparr>dtype := UInt8, data := map (\<lambda>v. v mod 256) (data m)\<rparr>))"
proof (cases "resize_if_needed env img")
  case (Inl e)
  then show ?thesis by (simp add: optimize_memory_usage_def)
next
  case (Inr m)
  assume "dtype img \<noteq> UInt8"
  moreover from resize_if_needed_cases [OF Inr] have "dtype m = dtype img"
    using cv2_resize_dtype by blast
  ultimately show ?thesis using Inr by (simp add: optimize_memory_usage_def astype_uint8_def)
qed

lemma optimize_memory_usage_casts_example:
  "optimize_memory_usage exact_env int16_1x2 =
     Inr \<lparr>height = 1, width = 2, channels = None, dtype = UInt8, data = [0, 44]\<rparr>"
  by (simp add: optimize_memory_usage_def astype_uint8_def int16_1x2_def resize_if_needed_def
      max_dimension_def)

section \<open>The claims\<close>

text \<open>
  C1. The claim: a pair of inputs in which a buffer is empty or has a channel count other
  than 1 or 3 makes both operations fail with an \<open>InvalidBuffer\<close> error, raised before
  any processing. The source has no validation step and no exception of its own: an input
  is rejected only where a library call rejects it. A buffer with four channels is not
  rejected: the grayscale conversion takes it and ignores the fourth channel.
\<close>

theorem four_channels_accepted:
  "channels bgra_1x1 = Some 4 \<and>
   logical_and exact_env bgra_1x1 white_1x1 = Inr white_1x1 \<and>
   union_operation exact_env bgra_1x1 white_1x1 = Inr white_1x1"
  by (simp add: logical_and_def union_operation_def resize_to_match_def
      is_empty_def nchannels_def cv2_cvtColor_BGR2GRAY_def luma_def
      optimize_memory_usage_def resize_if_needed_def max_dimension_def convert_to_binary_def
      ndim_def cv2_threshold_def cv2_bitwise_and_def cv2_bitwise_or_def same_layout_def
      bgra_1x1_def white_1x1_def)

text \<open>
  C1, as the code has it. When a buffer is empty or has a channel count other than 1, 3 or
  4, both operations fail and return no buffer. The error is the exception of the step
  that meets the input: \<open>cv2.error\<close> from a resize call or from the grayscale
  conversion, or, only when both buffers are empty, \<open>ZeroDivisionError\<close> from the
  division in \<open>resize_if_needed\<close>. One case is left out: an empty two-dimensional first
  buffer with a second buffer of its height and width and no side above the ceiling. No
  call rejects that first buffer before the threshold is applied to it, and what the
  library does with an empty array there is not settled by the source.
\<close>

theorem unsupported_input_fails:
  assumes "is_empty a \<or> is_empty b \<or> channels a \<notin> {None, Some 1, Some 3, Some 4} \<or>
           channels b \<notin> {None, Some 1, Some 3, Some 4}"
    and "\<not> (channels a = None \<and> (height a = 0 \<or> width a = 0) \<and>
            height b = height a \<and> width b = width a \<and>
            height a \<le> 2048 \<and> width a \<le> 2048)"
  shows "\<exists>e. logical_and env a b = Inl e \<and> union_operation env a b = Inl e \<and>
           (e = CvError Resize \<or> e = CvError CvtColor \<or>
            (e = ZeroDivisionError \<and> is_empty a \<and> is_empty b))"
proof (cases "binarised env a b")
  case (Inl e)
  have "logical_and env a b = Inl e" "union_operation env a b = Inl e"
    by (simp_all add: logical_and_binarised union_operation_binarised Inl)
  with binarised_Inl [OF Inl] show ?thesis by blast
next
  case (Inr bb)
  obtain b1 b2 where bb: "bb = (b1, b2)" by (cases bb)
  from binarised_unsupported [OF assms(1) Inr [unfolded bb]] assms(2)
  show ?thesis by blast
qed

text \<open>
  A 1 by 1 buffer with two channels, and the empty buffer of 0 by 0, each combined with a
  1 by 1 grayscale buffer.
\<close>

theorem unsupported_input_fails_witness:
  "channels two_channel_1x1 \<notin> {None, Some 1, Some 3, Some 4} \<and>
   logical_and exact_env two_channel_1x1 white_1x1 = Inl (CvError CvtColor) \<and>
   union_operation exact_env two_channel_1x1 white_1x1 = Inl (CvError CvtColor) \<and>
   is_empty empty_0x0 \<and> \<not> is_empty white_1x1 \<and>
   logical_and exact_env empty_0x0 white_1x1 = Inl (CvError Resize) \<and>
   union_operation exact_env empty_0x0 white_1x1 = Inl (CvError Resize)"
proof -
  have c: "channels two_channel_1x1 \<notin> {None, Some 1, Some 3, Some 4}"
    by (simp add: two_channel_1x1_def)
  then have h1: "is_empty two_channel_1x1 \<or> is_empty white_1x1 \<or>
      channels two_channel_1x1 \<notin> {None, Some 1, Some 3, Some 4} \<or>
      channels white_1x1 \<notin> {None, Some 1, Some 3, Some 4}" by blast
  have x1: "\<not> (channels two_channel_1x1 = None \<and>
      (height two_channel_1x1 = 0 \<or> width two_channel_1x1 = 0) \<and>
      height white_1x1 = height two_channel_1x1 \<and> width white_1x1 = width two_channel_1x1 \<and>
      height two_channel_1x1 \<le> 2048 \<and> width two_channel_1x1 \<le> 2048)"
    by (simp add: two_channel_1x1_def)
  have n: "is_empty empty_0x0" "\<not> is_empty white_1x1"
    by (simp_all add: is_empty_def empty_0x0_def white_1x1_def)
  then have h2: "is_empty empty_0x0 \<or> is_empty white_1x1 \<or>
      channels empty_0x0 \<notin> {None, Some 1, Some 3, Some 4} \<or>
      channels white_1x1 \<notin> {None, Some 1, Some 3, Some 4}" by blast
  have x2: "\<not> (channels empty_0x0 = None \<and> (height empty_0x0 = 0 \<or> width empty_0x0 = 0) \<and>
      height white_1x1 = height empty_0x0 \<and> width white_1x1 = width empty_0x0 \<and>
      height empty_0x0 \<le> 2048 \<and> width empty_0x0 \<le> 2048)"
    by (simp add: empty_0x0_def white_1x1_def)
  have l1: "logical_and exact_env two_channel_1x1 white_1x1 = Inl (CvError CvtColor)"
    by (simp add: logical_and_def resize_to_match_def is_empty_def nchannels_def
        cv2_cvtColor_BGR2GRAY_def optimize_memory_usage_def resize_if_needed_def
        max_dimension_def convert_to_binary_def ndim_def two_channel_1x1_def white_1x1_def)
  have l2: "logical_and exact_env empty_0x0 white_1x1 = Inl (CvError Resize)"
    by (simp add: logical_and_def resize_to_match_def cv2_resize_def is_empty_def
        empty_0x0_def white_1x1_def)
  from unsupported_input_fails [OF h1 x1, of exact_env] l1
  have u1: "union_operation exact_env two_channel_1x1 white_1x1 = Inl (CvError CvtColor)"
    by auto
  from unsupported_input_fails [OF h2 x2, of exact_env] l2
  have u2: "union_operation exact_env empty_0x0 white_1x1 = Inl (CvError Resize)"
    by auto
  from c l1 u1 n l2 u2 show ?thesis by simp
qed

text \<open>
  C2. \<open>get_image_info\<close> should report 1 channel for a two-dimensional grayscale buffer.
  On the valid 1 by 1 grayscale buffer it reports 2: the number of axes of the array, not its
  channel count.
\<close>

theorem get_image_info_gray_channels:
  "valid_buffer gray_1x1 \<and> channels gray_1x1 = None \<and>
   info_channels (get_image_info gray_1x1) = 2"
  by (simp add: get_image_info_def shape_def gray_1x1_def valid_buffer_def well_formed_def
      nchannels_def)

text \<open>
  C3. For valid buffers, whatever \<open>logical_and\<close> or \<open>union_operation\<close> returns is
  no higher than the lower input, no wider than the narrower input, and has no side above
  2048. The sizes are the ones Python computes in doubles: the bound holds for every
  rounding with the two properties of \<open>rounds_to_double\<close>.
\<close>

theorem combine_never_upsamples:
  assumes "valid_buffer a" "valid_buffer b" "rounds_to_double (fround env)"
  shows "(logical_and env a b = Inr r \<longrightarrow>
            height r \<le> min (height a) (height b) \<and> width r \<le> min (width a) (width b) \<and>
            height r \<le> 2048 \<and> width r \<le> 2048) \<and>
         (union_operation env a b = Inr s \<longrightarrow>
            height s \<le> min (height a) (height b) \<and> width s \<le> min (width a) (width b) \<and>
            height s \<le> 2048 \<and> width s \<le> 2048)"
proof -
  note wf = valid_buffer_well_formed [OF assms(1)] valid_buffer_well_formed [OF assms(2)]
  note le = reconciled_size_le [OF assms(3) wf]
  have "height r \<le> min (height a) (height b) \<and> width r \<le> min (width a) (width b) \<and>
        height r \<le> 2048 \<and> width r \<le> 2048" if r: "logical_and env a b = Inr r"
  proof -
    from combine_returns_iff(1) [OF wf r]
    have "0 < fst (reconciled_size env a b)" "0 < snd (reconciled_size env a b)" by simp_all
    from combine_result [OF wf this] r
    have "height r = fst (reconciled_size env a b)" "width r = snd (reconciled_size env a b)"
      by auto
    with le show ?thesis by simp
  qed
  moreover
  have "height s \<le> min (height a) (height b) \<and> width s \<le> min (width a) (width b) \<and>
        height s \<le> 2048 \<and> width s \<le> 2048" if s: "union_operation env a b = Inr s"
  proof -
    from combine_returns_iff(2) [OF wf s]
    have "0 < fst (reconciled_size env a b)" "0 < snd (reconciled_size env a b)" by simp_all
    from combine_result [OF wf this] s
    have "height s = fst (reconciled_size env a b)" "width s = snd (reconciled_size env a b)"
      by auto
    with le show ?thesis by simp
  qed
  ultimately show ?thesis by blast
qed

text \<open>
  A strip of 4096 by 2 with a band of 8192 by 4: reconciled to 4096 by 2, then clamped to
  2048 by 1.
\<close>

theorem combine_never_upsamples_witness:
  "valid_buffer strip_4096x2 \<and> valid_buffer band_8192x4 \<and>
   rounds_to_double (fround exact_env) \<and>
   logical_and exact_env strip_4096x2 band_8192x4 =
     Inr \<lparr>height = 2048, width = 1, channels = None, dtype = UInt8,
          data = replicate 2048 0\<rparr> \<and>
   union_operation exact_env strip_4096x2 band_8192x4 =
     Inr \<lparr>height = 2048, width = 1, channels = None, dtype = UInt8,
          data = replicate 2048 255\<rparr> \<and>
   (2048::nat) \<le> min (height strip_4096x2) (height band_8192x4) \<and>
   (1::nat) \<le> min (width strip_4096x2) (width band_8192x4)"
  using combine_never_upsamples [OF valid_examples(7) valid_examples(8)
      rounds_to_double_exact_env,
      where r = "\<lparr>height = 2048, width = 1, channels = None, dtype = UInt8,
                  data = replicate 2048 0\<rparr>"
        and s = "\<lparr>height = 2048, width = 1, channels = None, dtype = UInt8,
                  data = replicate 2048 255\<rparr>"]
  by (simp add: clamp_example valid_examples rounds_to_double_exact_env)

text \<open>
  C4. \<open>convert_to_binary\<close> on a well-formed array gives a two-dimensional array of the same
  height and width. A grayscale element is thresholded as it is; a colour pixel is first
  replaced by the luma of its blue, green and red elements. An element above 127 becomes
  255, every other element 0. The luma of 8-bit elements is within one gray level of
  \<open>0.114 b + 0.587 g + 0.299 r\<close>.
\<close>

theorem convert_to_binary_spec:
  assumes "well_formed img"
  shows "(\<exists>r. convert_to_binary img = Inr r \<and> height r = height img \<and> width r = width img \<and>
           channels r = None \<and> dtype r = UInt8 \<and> length (data r) = height img * width img \<and>
           (\<forall>p < height img * width img.
              (channels img = None \<longrightarrow>
                 data r ! p = (if data img ! p > 127 then 255 else 0)) \<and>
              (channels img = Some 3 \<longrightarrow>
                 data r ! p =
                   (if luma (data img ! (3 * p)) (data img ! (3 * p + 1)) (data img ! (3 * p + 2))
                         > 127
                    then 255 else 0)))) \<and>
         (\<forall>b g r. 0 \<le> b \<and> b \<le> 255 \<and> 0 \<le> g \<and> g \<le> 255 \<and> 0 \<le> r \<and> r \<le> 255 \<longrightarrow>
            \<bar>1000 * luma b g r - (114 * b + 587 * g + 299 * r)\<bar> < 1000)"
proof -
  define g where "g = (if channels img = Some 3 then bgr2gray (data img) else data img)"
  define r where "r = \<lparr>height = height img, width = width img, channels = None, dtype = UInt8,
             data = map (\<lambda>v. if v > 127 then 255 else 0) g\<rparr>"
  have conv: "convert_to_binary img = Inr r"
    unfolding r_def g_def by (rule convert_to_binary_well_formed [OF assms])
  have len: "length g = height img * width img"
    using assms by (auto simp: g_def well_formed_def nchannels_def length_bgr2gray)
  have gray: "data r ! p = (if data img ! p > 127 then 255 else 0)"
    if "p < height img * width img" "channels img = None" for p
    using that len by (simp add: r_def g_def)
  have colour: "data r ! p =
      (if luma (data img ! (3 * p)) (data img ! (3 * p + 1)) (data img ! (3 * p + 2)) > 127
       then 255 else 0)"
    if "p < height img * width img" "channels img = Some 3" for p
  proof -
    have "p < length (data img) div 3"
      using that assms by (simp add: well_formed_def nchannels_def)
    from nth_bgr2gray [OF this] that len show ?thesis by (simp add: r_def g_def)
  qed
  have "height r = height img" "width r = width img" "channels r = None" "dtype r = UInt8"
    "length (data r) = height img * width img"
    using len by (simp_all add: r_def)
  with conv gray colour
  have binarised: "\<exists>r. convert_to_binary img = Inr r \<and> height r = height img \<and>
      width r = width img \<and> channels r = None \<and> dtype r = UInt8 \<and>
      length (data r) = height img * width img \<and>
      (\<forall>p < height img * width img.
         (channels img = None \<longrightarrow>
            data r ! p = (if data img ! p > 127 then 255 else 0)) \<and>
         (channels img = Some 3 \<longrightarrow>
            data r ! p =
              (if luma (data img ! (3 * p)) (data img ! (3 * p + 1)) (data img ! (3 * p + 2))
                    > 127
               then 255 else 0)))"
    by blast
  have weights: "\<forall>b g r. 0 \<le> b \<and> b \<le> 255 \<and> 0 \<le> g \<and> g \<le> 255 \<and> 0 \<le> r \<and> r \<le> 255 \<longrightarrow>
      \<bar>1000 * luma b g r - (114 * b + 587 * g + 299 * r)\<bar> < 1000"
    using luma_weights by blast
  from binarised weights show ?thesis by (rule conjI)
qed

text \<open>A red and a white pixel: red has luma 76, white has luma 255.\<close>

theorem convert_to_binary_spec_witness:
  "well_formed bgr_1x2 \<and>
   convert_to_binary bgr_1x2 =
     Inr \<lparr>height = 1, width = 2, channels = None, dtype = UInt8, data = [0, 255]\<rparr> \<and>
   luma 0 0 255 = 76"
  using convert_to_binary_spec [of bgr_1x2]
  by (simp add: bgr_1x2_def well_formed_def nchannels_def convert_to_binary_def ndim_def
      cv2_cvtColor_BGR2GRAY_def cv2_threshold_def is_empty_def luma_def)

text \<open>
  C5. For valid buffers, the array returned by \<open>logical_and\<close> or \<open>union_operation\<close>
  holds only the elements 0 and 255, is two-dimensional with one element per position, and
  has the reconciled height and width, as the code computes them. Both operations return
  whenever the reconciled height and width are positive.
\<close>

theorem combine_binary_result:
  assumes "valid_buffer a" "valid_buffer b"
  shows "(logical_and env a b = Inr r \<longrightarrow>
            list_all (\<lambda>v. v = 0 \<or> v = 255) (data r) \<and> channels r = None \<and>
            length (data r) = height r * width r \<and>
            (height r, width r) = reconciled_size env a b) \<and>
         (union_operation env a b = Inr s \<longrightarrow>
            list_all (\<lambda>v. v = 0 \<or> v = 255) (data s) \<and> channels s = None \<and>
            length (data s) = height s * width s \<and>
            (height s, width s) = reconciled_size env a b) \<and>
         (0 < fst (reconciled_size env a b) \<and> 0 < snd (reconciled_size env a b) \<longrightarrow>
            (\<exists>r' s'. logical_and env a b = Inr r' \<and> union_operation env a b = Inr s'))"
proof -
  note wf = valid_buffer_well_formed [OF assms(1)] valid_buffer_well_formed [OF assms(2)]
  have bb: "list_all (\<lambda>v. v = 0 \<or> v = 255) (data x) \<and> channels x = None \<and>
            length (data x) = height x * width x" if "binary_buffer x" for x
    using that by (simp add: binary_buffer_def well_formed_def nchannels_def)
  have "list_all (\<lambda>v. v = 0 \<or> v = 255) (data r) \<and> channels r = None \<and>
        length (data r) = height r * width r \<and> (height r, width r) = reconciled_size env a b"
    if r: "logical_and env a b = Inr r"
  proof -
    from combine_returns_iff(1) [OF wf r]
    have "0 < fst (reconciled_size env a b)" "0 < snd (reconciled_size env a b)" by simp_all
    from combine_result [OF wf this] r
    have "binary_buffer r" "height r = fst (reconciled_size env a b)"
      "width r = snd (reconciled_size env a b)" by auto
    with bb [of r] show ?thesis by simp
  qed
  moreover
  have "list_all (\<lambda>v. v = 0 \<or> v = 255) (data s) \<and> channels s = None \<and>
        length (data s) = height s * width s \<and> (height s, width s) = reconciled_size env a b"
    if s: "union_operation env a b = Inr s"
  proof -
    from combine_returns_iff(2) [OF wf s]
    have "0 < fst (reconciled_size env a b)" "0 < snd (reconciled_size env a b)" by simp_all
    from combine_result [OF wf this] s
    have "binary_buffer s" "height s = fst (reconciled_size env a b)"
      "width s = snd (reconciled_size env a b)" by auto
    with bb [of s] show ?thesis by simp
  qed
  moreover
  have "\<exists>r' s'. logical_and env a b = Inr r' \<and> union_operation env a b = Inr s'"
    if "0 < fst (reconciled_size env a b) \<and> 0 < snd (reconciled_size env a b)"
  proof -
    from that have "0 < fst (reconciled_size env a b)" "0 < snd (reconciled_size env a b)"
      by simp_all
    from combine_result [OF wf this] show ?thesis by blast
  qed
  ultimately show ?thesis by blast
qed

text \<open>
  A colour buffer and a grayscale buffer of 1 by 2.
\<close>

theorem combine_binary_result_witness:
  "valid_buffer bgr_1x2 \<and> valid_buffer gray_1x2 \<and>
   logical_and exact_env bgr_1x2 gray_1x2 =
     Inr \<lparr>height = 1, width = 2, channels = None, dtype = UInt8, data = [0, 0]\<rparr> \<and>
   union_operation exact_env bgr_1x2 gray_1x2 =
     Inr \<lparr>height = 1, width = 2, channels = None, dtype = UInt8, data = [255, 255]\<rparr> \<and>
   reconciled_size exact_env bgr_1x2 gray_1x2 = (1, 2)"
  using combine_binary_result [OF valid_examples(4) valid_examples(3),
      where env = exact_env
        and r = "\<lparr>height = 1, width = 2, channels = None, dtype = UInt8, data = [0, 0]\<rparr>"
        and s = "\<lparr>height = 1, width = 2, channels = None, dtype = UInt8,
                  data = [255, 255]\<rparr>"]
  by (simp add: colour_example valid_examples)



text \<open>
  C7. A single-channel binary buffer whose sides are positive and at most 2048, combined
  with itself, comes back unchanged, under AND and under OR.
\<close>

theorem combine_idempotent:
  assumes "binary_buffer x" "height x \<le> 2048" "width x \<le> 2048"
  shows "logical_and env x x = Inr x \<and> union_operation env x x = Inr x"
proof -
  have wf: "well_formed x" and ch: "channels x = None"
    and vals: "list_all (\<lambda>v. v = 0 \<or> v = 255) (data x)"
    using assms(1) by (simp_all add: binary_buffer_def)
  have u8: "dtype x = UInt8" using wf by (simp add: well_formed_def)
  have rtm: "resize_to_match env x x = Inr (x, x)" by (simp add: resize_to_match_def)
  have opt: "optimize_memory_usage env x = Inr x"
    using assms(2,3) u8
    by (simp add: optimize_memory_usage_def resize_if_needed_def max_dimension_def)
  have thr: "map (\<lambda>v. if v > 127 then 255 else 0) (data x) = data x"
    using vals by (intro map_idI) (auto simp: list_all_iff)
  have conv: "convert_to_binary x = Inr x"
    using convert_to_binary_well_formed [OF wf] ch u8 thr by simp
  have a: "map2 (\<lambda>x y. x AND y) (data x) (data x) = data x"
    by (rule map2_same) simp
  have o: "map2 (\<lambda>x y. x OR y) (data x) (data x) = data x"
    by (rule map2_same) simp
  have "cv2_bitwise_and x x = Inr x" "cv2_bitwise_or x x = Inr x"
    using a o by (simp_all add: cv2_bitwise_and_def cv2_bitwise_or_def same_layout_def)
  with rtm opt conv show ?thesis by (simp add: logical_and_def union_operation_def)
qed

text \<open>The 1 by 2 buffer with the elements 255 and 0.\<close>

theorem combine_idempotent_witness:
  "binary_buffer gray_1x2 \<and> height gray_1x2 \<le> 2048 \<and> width gray_1x2 \<le> 2048 \<and>
   logical_and exact_env gray_1x2 gray_1x2 = Inr gray_1x2 \<and>
   union_operation exact_env gray_1x2 gray_1x2 = Inr gray_1x2 \<and>
   data gray_1x2 = [255, 0]"
proof -
  have b: "binary_buffer gray_1x2"
    by (simp add: binary_buffer_def well_formed_def nchannels_def gray_1x2_def)
  have h: "height gray_1x2 \<le> 2048" "width gray_1x2 \<le> 2048" by (simp_all add: gray_1x2_def)
  from combine_idempotent [OF b h, of exact_env] b h show ?thesis
    by (simp add: gray_1x2_def)
qed

text \<open>
  C8. For valid buffers of one height and one width, \<open>logical_and\<close> and
  \<open>union_operation\<close> give the same outcome whichever buffer comes first.
\<close>

theorem combine_commutes:
  assumes "valid_buffer a" "valid_buffer b" "height a = height b" "width a = width b"
  shows "logical_and env a b = logical_and env b a \<and>
         union_operation env a b = union_operation env b a"
proof (cases "0 < fst (reconciled_size env a b) \<and> 0 < snd (reconciled_size env a b)")
  case False
  note wf = valid_buffer_well_formed [OF assms(1)] valid_buffer_well_formed [OF assms(2)]
  from False have z: "fst (reconciled_size env a b) = 0 \<or> snd (reconciled_size env a b) = 0" by auto
  then have z': "fst (reconciled_size env b a) = 0 \<or> snd (reconciled_size env b a) = 0"
    by (simp add: reconciled_size_commute)
  from combine_fails [OF wf z] combine_fails [OF wf(2,1) z']
  show ?thesis by simp
next
  case True
  note wf = valid_buffer_well_formed [OF assms(1)] valid_buffer_well_formed [OF assms(2)]
  have ta: "clamped_size env (height a, width a) = reconciled_size env a b"
    and tb: "clamped_size env (height b, width b) = reconciled_size env a b"
    using assms(3,4) by (simp_all add: reconciled_size_def target_size_def)
  from True have pos: "0 < fst (reconciled_size env a b)" "0 < snd (reconciled_size env a b)"
    by simp_all
  from optimize_memory_usage_well_formed [OF wf(1), of env, unfolded ta, OF pos]
  obtain oa where oa: "optimize_memory_usage env a = Inr oa" "well_formed oa"
    "height oa = fst (reconciled_size env a b)" "width oa = snd (reconciled_size env a b)" by blast
  from optimize_memory_usage_well_formed [OF wf(2), of env, unfolded tb, OF pos]
  obtain ob where ob: "optimize_memory_usage env b = Inr ob" "well_formed ob"
    "height ob = fst (reconciled_size env a b)" "width ob = snd (reconciled_size env a b)" by blast
  from convert_to_binary_binary_buffer [OF oa(2)]
  obtain ba where ba: "convert_to_binary oa = Inr ba" "binary_buffer ba"
    "height ba = height oa" "width ba = width oa" by blast
  from convert_to_binary_binary_buffer [OF ob(2)]
  obtain bb where bb: "convert_to_binary ob = Inr bb" "binary_buffer bb"
    "height bb = height ob" "width bb = width ob" by blast
  have rtm: "resize_to_match env a b = Inr (a, b)" "resize_to_match env b a = Inr (b, a)"
    using assms(3,4) by (simp_all add: resize_to_match_def)
  have dims: "height ba = height bb" "width ba = width bb"
    using ba(3,4) bb(3,4) oa(3,4) ob(3,4) by simp_all
  have "logical_and env a b = cv2_bitwise_and ba bb"
    "logical_and env b a = cv2_bitwise_and bb ba"
    "union_operation env a b = cv2_bitwise_or ba bb"
    "union_operation env b a = cv2_bitwise_or bb ba"
    by (simp_all add: logical_and_def union_operation_def rtm oa(1) ob(1) ba(1) bb(1))
  with bitwise_commute [OF ba(2) bb(2) dims] show ?thesis by simp
qed

text \<open>The grayscale buffer first, the colour buffer second.\<close>

theorem combine_commutes_witness:
  "valid_buffer bgr_1x2 \<and> valid_buffer gray_1x2 \<and> height bgr_1x2 = height gray_1x2 \<and>
   width bgr_1x2 = width gray_1x2 \<and>
   logical_and exact_env gray_1x2 bgr_1x2 =
     Inr \<lparr>height = 1, width = 2, channels = None, dtype = UInt8, data = [0, 0]\<rparr> \<and>
   union_operation exact_env gray_1x2 bgr_1x2 =
     Inr \<lparr>height = 1, width = 2, channels = None, dtype = UInt8, data = [255, 255]\<rparr>"
proof -
  have d: "height bgr_1x2 = height gray_1x2" "width bgr_1x2 = width gray_1x2"
    by (simp_all add: bgr_1x2_def gray_1x2_def)
  from combine_commutes [OF valid_examples(4) valid_examples(3) d, of exact_env]
  show ?thesis using d valid_examples(3,4) by (simp add: colour_example)
qed

text \<open>
  C9. \<open>logical_and\<close> with an all-zero buffer should give an all-zero buffer of the
  reconciled size, \<open>union_operation\<close> with an all-255 buffer an all-255 buffer of that
  size. Lemma \<open>absorbing_law\<close> proves both whenever the reconciled height and width are
  positive. They are not always: \<open>resize_if_needed\<close> truncates a scaled side below 1
  to 0 and asks the library for an empty target, which the library refuses. On the
  all-zero column of 4096 by 1 combined with itself \<open>logical_and\<close> raises, and on the
  all-255 column of 4096 by 1 combined with itself \<open>union_operation\<close> raises; so does
  \<open>logical_and\<close> on the all-zero column with a column of 4097 by 1. The scale there is
  one half, which doubles compute exactly.
\<close>

theorem absorbing_fails_on_thin_column:
  "valid_buffer column_4096 \<and> list_all (\<lambda>v. v = 0) (data column_4096) \<and>
   logical_and exact_env column_4096 column_4096 = Inl (CvError Resize) \<and>
   valid_buffer column_4097 \<and>
   logical_and exact_env column_4096 column_4097 = Inl (CvError Resize) \<and>
   valid_buffer white_column_4096 \<and> list_all (\<lambda>v. v = 255) (data white_column_4096) \<and>
   union_operation exact_env white_column_4096 white_column_4096 = Inl (CvError Resize)"
  by (simp add: valid_examples thin_column_examples)
    (simp add: column_4096_def white_column_4096_def list_all_iff)

end
